theory Spec2Isabelle
  imports Complex_Main
begin

section \<open>Strings and paths\<close>

text \<open>
  Paths are Python \<open>str\<close> values; they are modelled as \<open>string\<close> (a list of characters)
  and taken to be ASCII, so that \<open>str.lower\<close> only touches the letters \<open>A\<close> to \<open>Z\<close>.
  The functions below are the \<open>str\<close> methods and the \<open>posixpath\<close> functions that
  \<open>reencode.py\<close> calls.
\<close>

type_synonym path = string

definition endswith :: "string \<Rightarrow> string \<Rightarrow> bool" where
  "endswith s suf \<longleftrightarrow> length suf \<le> length s \<and> drop (length s - length suf) s = suf"

definition startswith :: "string \<Rightarrow> string \<Rightarrow> bool" where
  "startswith s pre \<longleftrightarrow> take (length pre) s = pre"

text \<open>\<open>sub in s\<close>: the substring test of Python.\<close>

fun contains :: "string \<Rightarrow> string \<Rightarrow> bool" where
  "contains [] sub = (sub = [])"
| "contains (c # cs) sub = (startswith (c # cs) sub \<or> contains cs sub)"

definition lower_char :: "char \<Rightarrow> char" where
  "lower_char c =
     (if 65 \<le> (of_char c :: nat) \<and> (of_char c :: nat) \<le> 90
      then char_of ((of_char c :: nat) + 32) else c)"

definition lower :: "string \<Rightarrow> string" where
  "lower s = map lower_char s"

text \<open>\<open>s.rfind(c) + 1\<close>: the length of the longest prefix of \<open>s\<close> that ends with \<open>c\<close>,
  and 0 when \<open>c\<close> does not occur.\<close>

fun rfind1 :: "string \<Rightarrow> char \<Rightarrow> nat" where
  "rfind1 [] c = 0"
| "rfind1 (x # xs) c =
     (case rfind1 xs c of 0 \<Rightarrow> (if x = c then 1 else 0) | Suc n \<Rightarrow> Suc (Suc n))"

text \<open>\<open>s.rstrip('/')\<close>.\<close>

definition rstrip_slash :: "string \<Rightarrow> string" where
  "rstrip_slash s = rev (dropWhile (\<lambda>c. c = CHR ''/'') (rev s))"

text \<open>\<open>posixpath.dirname\<close>: the head up to the last slash, with trailing slashes removed
  unless the head consists of slashes only.\<close>

definition dirname :: "path \<Rightarrow> path" where
  "dirname p =
     (let head = take (rfind1 p CHR ''/'') p
      in if head \<noteq> [] \<and> head \<noteq> replicate (length head) CHR ''/''
         then rstrip_slash head else head)"

definition basename :: "path \<Rightarrow> path" where
  "basename p = drop (rfind1 p CHR ''/'') p"

text \<open>\<open>posixpath.join\<close> of two components.\<close>

definition path_join :: "path \<Rightarrow> path \<Rightarrow> path" where
  "path_join a b =
     (if startswith b ''/'' then b
      else if a = [] \<or> endswith a ''/'' then a @ b
      else a @ ''/'' @ b)"

text \<open>\<open>s.rsplit(".", 1)[0]\<close>: everything before the last dot, the whole string when
  there is no dot.\<close>

definition rsplit_dot_head :: "string \<Rightarrow> string" where
  "rsplit_dot_head s =
     (if rfind1 s CHR ''.'' = 0 then s else take (rfind1 s CHR ''.'' - 1) s)"

definition as_mp4 :: "path \<Rightarrow> path" where
  "as_mp4 f =
     (let dirname' = dirname f;
          basename' = basename f;
          mp4 = rsplit_dot_head basename' @ ''.mp4''
      in path_join dirname' mp4)"

section \<open>Backups and input filtering\<close>

text \<open>\<open>backup\<close> moves \<open>f\<close> to the path computed here (\<open>shutil.move(f, "REENC_BACKUP-" + f)\<close>).\<close>

definition backup_target :: "path \<Rightarrow> path" where
  "backup_target f = ''REENC_BACKUP-'' @ f"

definition is_backup :: "path \<Rightarrow> bool" where
  "is_backup f \<longleftrightarrow> contains f ''REENC_BACKUP''"

definition SKIP_EXTS :: "string list" where
  "SKIP_EXTS =
     [''jpg'', ''png'', ''jpeg'', ''posts'', ''yml'', ''info'', ''sh'', ''pdf'', ''swf'',
      ''xml'', ''mp3'', ''css'', ''url'', ''txt'', ''html'', ''exe'', ''py'', ''dv'',
      ''heic'', ''db'', ''zip'', ''psd'', ''pyc'', ''pem'', ''jpe'', ''typed'', ''readme'',
      ''md'', ''rar'']"

definition skip_file :: "path \<Rightarrow> bool" where
  "skip_file f =
     (let has_skip_ext = list_ex (\<lambda>ext. endswith (lower f) ext) SKIP_EXTS
      in is_backup f \<or> has_skip_ext)"

text \<open>
  The extension of a path as \<open>as_mp4\<close> understands it: what follows the last dot of the
  base name, and nothing when the base name has no dot. \<open>skip_by_extension\<close> is the
  filter of the specification: the backup marker, or an extension on the denylist.
\<close>

definition extension :: "path \<Rightarrow> string option" where
  "extension f =
     (let b = basename f
      in if rfind1 b CHR ''.'' = 0 then None else Some (drop (rfind1 b CHR ''.'') b))"

definition skip_by_extension :: "path \<Rightarrow> bool" where
  "skip_by_extension f \<longleftrightarrow>
     is_backup f \<or> (case extension (lower f) of None \<Rightarrow> False | Some e \<Rightarrow> e \<in> set SKIP_EXTS)"

section \<open>Errors\<close>

text \<open>
  Every exception that the modelled code can raise is a value: \<open>ErrorCalled\<close> is
  \<open>Log.ErrorCalled\<close> (raised by \<open>Log.error\<close> and by a failed \<open>Log.check\<close>),
  \<open>CalledProcessError\<close> is the non-zero exit of a subprocess started by \<open>run\<close>,
  \<open>IntegrityError\<close> and \<open>OperationalError\<close> are those of \<open>sqlite3\<close>, and \<open>OSError\<close>
  stands for the errors of the file-system calls.
\<close>

datatype error =
    ErrorCalled
  | CalledProcessError
  | ZeroDivisionError
  | IntegrityError
  | OperationalError
  | OSError

section \<open>Floating-point arithmetic of \<open>file_size_percent\<close>\<close>

text \<open>
  Python floats are IEEE-754 binary64 numbers. A float is modelled by the rational
  number it denotes, and every operation rounds its exact result to the nearest
  representable number, ties to even (\<open>to_double\<close>). Only the normal range is modelled:
  the quotients of file sizes are far from overflow and underflow.
\<close>

definition round_half_even :: "rat \<Rightarrow> int" where
  "round_half_even x =
     (let f = \<lfloor>x\<rfloor>; d = x - of_int f
      in if d < 1 / 2 then f
         else if 1 / 2 < d then f + 1
         else if even f then f else f + 1)"

text \<open>The number of binary digits of a natural number.\<close>

fun bit_length :: "nat \<Rightarrow> nat" where
  "bit_length n = (if n = 0 then 0 else Suc (bit_length (n div 2)))"

declare bit_length.simps [simp del]

definition pow2 :: "int \<Rightarrow> rat" where
  "pow2 e = (if 0 \<le> e then 2 ^ nat e else 1 / 2 ^ nat (- e))"

text \<open>The binary exponent \<open>e\<close> of a positive rational: \<open>2 ^ e \<le> x < 2 ^ (e + 1)\<close>.\<close>

definition binary_exponent :: "rat \<Rightarrow> int" where
  "binary_exponent x =
     (let (a, b) = quotient_of x;
          e0 = int (bit_length (nat a)) - int (bit_length (nat b))
      in if pow2 e0 \<le> x then e0 else e0 - 1)"

definition to_double :: "rat \<Rightarrow> rat" where
  "to_double x =
     (if x = 0 then 0
      else let scale = pow2 (52 - binary_exponent \<bar>x\<bar>)
           in sgn x * of_int (round_half_even (\<bar>x\<bar> * scale)) / scale)"

text \<open>\<open>a / b\<close> on two \<open>int\<close> values: the correctly rounded quotient.\<close>

definition true_div :: "int \<Rightarrow> int \<Rightarrow> error + rat" where
  "true_div a b = (if b = 0 then Inl ZeroDivisionError else Inr (to_double (of_int a / of_int b)))"

text \<open>\<open>round(x, 1)\<close> on a float: the decimal with one digit nearest to the exact value
  of \<open>x\<close> (ties to even), converted back to a float.\<close>

definition py_round1 :: "rat \<Rightarrow> rat" where
  "py_round1 x = to_double (of_int (round_half_even (x * 10)) / 10)"

section \<open>The file system\<close>

text \<open>
  A path names a file node or a symbolic link. A node carries its inode number, whether
  it is a directory, the device it lives on and its bytes; \<open>st_size\<close> is the number of
  bytes. No function of \<open>reencode.py\<close> writes into an existing file, so the bytes of a
  hard-linked file are kept with each of its names. Paths are keys of the name space:
  the directories on the way to a path are taken to exist. \<open>mount\<close> gives the device on
  which a new file at a path is created.
\<close>

type_synonym bytes = string

record fnode =
  st_ino :: nat
  is_dir :: bool
  st_dev :: nat
  content :: bytes

datatype entry = File fnode | Sym path

record filesystem =
  names :: "path \<Rightarrow> entry option"
  next_ino :: nat
  mount :: "path \<Rightarrow> nat"

text \<open>Following symbolic links, at most 40 of them as the kernel does.\<close>

fun follow :: "nat \<Rightarrow> (path \<Rightarrow> entry option) \<Rightarrow> path \<Rightarrow> path option" where
  "follow 0 ns p = (case ns p of Some (Sym t) \<Rightarrow> None | _ \<Rightarrow> Some p)"
| "follow (Suc k) ns p = (case ns p of Some (Sym t) \<Rightarrow> follow k ns t | _ \<Rightarrow> Some p)"

definition resolve :: "filesystem \<Rightarrow> path \<Rightarrow> path option" where
  "resolve fs p = follow 40 (names fs) p"

text \<open>\<open>os.stat\<close>: the node behind a path, \<open>None\<close> when there is none.\<close>

definition stat :: "filesystem \<Rightarrow> path \<Rightarrow> fnode option" where
  "stat fs p =
     (case resolve fs p of
        None \<Rightarrow> None
      | Some q \<Rightarrow> (case names fs q of Some (File n) \<Rightarrow> Some n | _ \<Rightarrow> None))"

definition st_size :: "fnode \<Rightarrow> nat" where
  "st_size n = length (content n)"

definition path_exists :: "filesystem \<Rightarrow> path \<Rightarrow> bool" where
  "path_exists fs p \<longleftrightarrow> stat fs p \<noteq> None"

definition path_isfile :: "filesystem \<Rightarrow> path \<Rightarrow> bool" where
  "path_isfile fs p \<longleftrightarrow> (case stat fs p of None \<Rightarrow> False | Some n \<Rightarrow> \<not> is_dir n)"

definition path_islink :: "filesystem \<Rightarrow> path \<Rightarrow> bool" where
  "path_islink fs p \<longleftrightarrow> (case names fs p of Some (Sym t) \<Rightarrow> True | _ \<Rightarrow> False)"

text \<open>A new regular file at a path that names nothing yet.\<close>

definition create_file :: "filesystem \<Rightarrow> path \<Rightarrow> bytes \<Rightarrow> filesystem" where
  "create_file fs q data =
     fs\<lparr>names := (names fs)(q \<mapsto>
            File \<lparr>st_ino = next_ino fs, is_dir = False, st_dev = mount fs q, content = data\<rparr>),
        next_ino := Suc (next_ino fs)\<rparr>"

text \<open>\<open>pathlib.Path.touch\<close>: creates an empty file unless the path exists.\<close>

definition touch :: "filesystem \<Rightarrow> path \<Rightarrow> error + filesystem" where
  "touch fs p =
     (case resolve fs p of
        None \<Rightarrow> Inl OSError
      | Some q \<Rightarrow> (if names fs q = None then Inr (create_file fs q []) else Inr fs))"

text \<open>\<open>pathlib.Path.unlink\<close> and \<open>os.remove\<close>: removes the name itself.\<close>

definition unlink :: "filesystem \<Rightarrow> path \<Rightarrow> error + filesystem" where
  "unlink fs p =
     (case names fs p of
        None \<Rightarrow> Inl OSError
      | Some (Sym t) \<Rightarrow> Inr (fs\<lparr>names := (names fs)(p := None)\<rparr>)
      | Some (File n) \<Rightarrow>
          (if is_dir n then Inl OSError else Inr (fs\<lparr>names := (names fs)(p := None)\<rparr>)))"

text \<open>\<open>os.link\<close>: a second name for the node of \<open>src\<close>, on the same device only.\<close>

definition os_link :: "filesystem \<Rightarrow> path \<Rightarrow> path \<Rightarrow> error + filesystem" where
  "os_link fs src dst =
     (case stat fs src of
        None \<Rightarrow> Inl OSError
      | Some n \<Rightarrow>
          (if is_dir n \<or> names fs dst \<noteq> None \<or> st_dev n \<noteq> mount fs dst then Inl OSError
           else Inr (fs\<lparr>names := (names fs)(dst \<mapsto> File n)\<rparr>)))"

text \<open>\<open>shutil.copy2\<close>: a new file with the bytes of \<open>src\<close>. \<open>copy_file\<close> calls it on a
  destination that it has just unlinked; a destination that exists is replaced.\<close>

definition shutil_copy2 :: "filesystem \<Rightarrow> path \<Rightarrow> path \<Rightarrow> error + filesystem" where
  "shutil_copy2 fs src dst =
     (case stat fs src of
        None \<Rightarrow> Inl OSError
      | Some n \<Rightarrow>
          (if is_dir n then Inl OSError
           else (case resolve fs dst of
                   None \<Rightarrow> Inl OSError
                 | Some q \<Rightarrow>
                     (case names fs q of
                        Some (File m) \<Rightarrow>
                          (if is_dir m then Inl OSError
                           else Inr (fs\<lparr>names := (names fs)(q \<mapsto> File (m\<lparr>content := content n\<rparr>))\<rparr>))
                      | _ \<Rightarrow> Inr (create_file fs q (content n))))))"

text \<open>\<open>tempfile.TemporaryDirectory\<close>: the directory is created on entry; on exit it is
  removed with everything below it.\<close>

definition mkdtemp :: "filesystem \<Rightarrow> path \<Rightarrow> filesystem" where
  "mkdtemp fs d =
     fs\<lparr>names := (names fs)(d \<mapsto>
            File \<lparr>st_ino = next_ino fs, is_dir = True, st_dev = mount fs d, content = []\<rparr>),
        next_ino := Suc (next_ino fs)\<rparr>"

definition in_tree :: "path \<Rightarrow> path \<Rightarrow> bool" where
  "in_tree d p \<longleftrightarrow> p = d \<or> startswith p (d @ ''/'')"

definition rmtree :: "filesystem \<Rightarrow> path \<Rightarrow> filesystem" where
  "rmtree fs d = fs\<lparr>names := (\<lambda>p. if in_tree d p then None else names fs p)\<rparr>"

section \<open>The world of one invocation\<close>

text \<open>
  The ledger is the table \<open>bad_encodings\<close> of the SQLite file: its primary key is
  \<open>(hash, crf, preset)\<close>, so the rows are a map from keys to \<open>output_bytes\<close>; before
  \<open>init_db\<close> has run for the first time there is no table. The trace records, in order,
  the encoder runs and the ledger calls of the invocation.
\<close>

type_synonym ledger_key = "bytes \<times> int \<times> string"

type_synonym table = "ledger_key \<Rightarrow> int option"

datatype event =
    RunFfmpeg "string list"
  | DbCheck ledger_key
  | DbInsert ledger_key int

record world =
  files :: filesystem
  db :: "table option"
  trace :: "event list"

text \<open>
  The collaborators outside the program: what \<open>ffprobe\<close> prints for a path (the parsed
  JSON: the \<open>(codec_type, codec_name)\<close> pairs of the streams and, when the \<open>format\<close>
  object and its \<open>duration\<close> are there, the duration), what the encoder writes for a
  command line, the digest function, and the scratch directory handed out by
  \<open>tempfile\<close>. \<open>None\<close> is a non-zero exit.
\<close>

record probe_json =
  streams :: "(string \<times> string) list"
  format :: "rat option option"

record env =
  ffprobe_tool :: "path \<Rightarrow> probe_json option"
  ffmpeg_tool :: "string list \<Rightarrow> bytes option"
  sha1 :: "bytes \<Rightarrow> bytes"
  tmp_dir :: path

definition rows :: "world \<Rightarrow> table" where
  "rows w = (case db w of None \<Rightarrow> Map.empty | Some t \<Rightarrow> t)"

definition log_event :: "event \<Rightarrow> world \<Rightarrow> world" where
  "log_event e w = w\<lparr>trace := trace w @ [e]\<rparr>"

section \<open>Probe\<close>

definition probe :: "env \<Rightarrow> path \<Rightarrow> error + (string \<times> string option \<times> rat)" where
  "probe ev file =
     (case ffprobe_tool ev file of
        None \<Rightarrow> Inl CalledProcessError
      | Some data \<Rightarrow>
          (let video_codecs = map snd (filter (\<lambda>s. fst s = ''video'') (streams data));
               audio_codecs = map snd (filter (\<lambda>s. fst s = ''audio'') (streams data))
           in if length video_codecs \<noteq> 1 then Inl ErrorCalled
              else if \<not> length audio_codecs \<le> 1 then Inl ErrorCalled
              else (case format data of
                      None \<Rightarrow> Inl ErrorCalled
                    | Some None \<Rightarrow> Inl ErrorCalled
                    | Some (Some duration) \<Rightarrow>
                        Inr (hd video_codecs,
                             (if length audio_codecs = 1 then Some (hd audio_codecs) else None),
                             duration))))"

definition isvideo :: "env \<Rightarrow> path \<Rightarrow> error + bool" where
  "isvideo ev file =
     (case probe ev file of
        Inr r \<Rightarrow> Inr True
      | Inl ErrorCalled \<Rightarrow> Inr False
      | Inl e \<Rightarrow> Inl e)"

section \<open>Sizes and placing files\<close>

definition file_size :: "filesystem \<Rightarrow> path \<Rightarrow> error + nat" where
  "file_size fs f = (case stat fs f of None \<Rightarrow> Inl OSError | Some n \<Rightarrow> Inr (st_size n))"

definition file_size_percent :: "filesystem \<Rightarrow> path \<Rightarrow> path \<Rightarrow> error + rat" where
  "file_size_percent fs f1 f2 =
     (case stat fs f1 of
        None \<Rightarrow> Inl OSError
      | Some n1 \<Rightarrow>
          (case stat fs f2 of
             None \<Rightarrow> Inl OSError
           | Some n2 \<Rightarrow>
               (case true_div (100 * int (st_size n1)) (int (st_size n2)) of
                  Inl e \<Rightarrow> Inl e
                | Inr pct \<Rightarrow> Inr (py_round1 pct))))"

definition files_on_same_fs :: "filesystem \<Rightarrow> path \<Rightarrow> path \<Rightarrow> error + bool" where
  "files_on_same_fs fs f1 f2 =
     (case stat fs f1 of
        None \<Rightarrow> Inl OSError
      | Some n1 \<Rightarrow>
          (case stat fs f2 of
             None \<Rightarrow> Inl OSError
           | Some n2 \<Rightarrow> Inr (st_dev n1 = st_dev n2)))"

text \<open>\<open>copy_file\<close>: the result and the file system it leaves behind, also when one of its
  steps raises.\<close>

definition copy_file :: "filesystem \<Rightarrow> path \<Rightarrow> path \<Rightarrow> (error + unit) \<times> filesystem" where
  "copy_file fs src dst =
     (if path_exists fs dst then (Inl ErrorCalled, fs)
      else (case touch fs dst of
              Inl e \<Rightarrow> (Inl e, fs)
            | Inr fs1 \<Rightarrow>
                (case files_on_same_fs fs1 src dst of
                   Inl e \<Rightarrow> (Inl e, fs1)
                 | Inr can_link \<Rightarrow>
                     (case unlink fs1 dst of
                        Inl e \<Rightarrow> (Inl e, fs1)
                      | Inr fs2 \<Rightarrow>
                          (case (if can_link then os_link fs2 src dst
                                 else shutil_copy2 fs2 src dst) of
                             Inl e \<Rightarrow> (Inl e, fs2)
                           | Inr fs3 \<Rightarrow> (Inr (), fs3))))))"

section \<open>The bad-encoding ledger\<close>

text \<open>\<open>CREATE TABLE IF NOT EXISTS\<close>: an existing table keeps its rows.\<close>

definition init_db :: "world \<Rightarrow> world" where
  "init_db w = w\<lparr>db := Some (rows w)\<rparr>"

definition hash_file :: "env \<Rightarrow> filesystem \<Rightarrow> path \<Rightarrow> error + bytes" where
  "hash_file ev fs p =
     (case stat fs p of
        None \<Rightarrow> Inl OSError
      | Some n \<Rightarrow> (if is_dir n then Inl OSError else Inr (sha1 ev (content n))))"

text \<open>\<open>BadEncodingDatabase.check\<close>: the \<open>SELECT\<close> on the full key; \<open>None\<close> when no row
  matches.\<close>

definition check :: "env \<Rightarrow> world \<Rightarrow> path \<Rightarrow> int \<Rightarrow> string \<Rightarrow> (error + int option) \<times> world" where
  "check ev w f crf preset =
     (case hash_file ev (files w) f of
        Inl e \<Rightarrow> (Inl e, w)
      | Inr h \<Rightarrow>
          (let w1 = log_event (DbCheck (h, crf, preset)) w
           in case db w1 of
                None \<Rightarrow> (Inl OperationalError, w1)
              | Some t \<Rightarrow> (Inr (t (h, crf, preset)), w1)))"

text \<open>\<open>BadEncodingDatabase.insert\<close>: the plain \<open>INSERT\<close>; a row with the same primary
  key makes SQLite raise and leaves the table as it was.\<close>

definition insert_row :: "env \<Rightarrow> world \<Rightarrow> path \<Rightarrow> int \<Rightarrow> string \<Rightarrow> int \<Rightarrow> (error + unit) \<times> world" where
  "insert_row ev w f crf preset output_bytes =
     (case hash_file ev (files w) f of
        Inl e \<Rightarrow> (Inl e, w)
      | Inr h \<Rightarrow>
          (let w1 = log_event (DbInsert (h, crf, preset) output_bytes) w
           in case db w1 of
                None \<Rightarrow> (Inl OperationalError, w1)
              | Some t \<Rightarrow>
                  (if t (h, crf, preset) \<noteq> None then (Inl IntegrityError, w1)
                   else (Inr (), w1\<lparr>db := Some (t((h, crf, preset) \<mapsto> output_bytes))\<rparr>))))"

section \<open>The encoder\<close>

text \<open>\<open>str\<close> of an \<open>int\<close>.\<close>

fun str_nat :: "nat \<Rightarrow> string" where
  "str_nat n =
     (if n < 10 then [char_of (48 + n)] else str_nat (n div 10) @ [char_of (48 + n mod 10)])"

declare str_nat.simps [simp del]

definition str_int :: "int \<Rightarrow> string" where
  "str_int i = (if i < 0 then ''-'' @ str_nat (nat (- i)) else str_nat (nat i))"

text \<open>
  \<open>ffmpeg\<close> runs the encoder on the command line it builds. The encoder is outside the
  program: it either exits non-zero or writes its output to the last argument, and with
  \<open>-n\<close> it refuses to replace what is already there.
\<close>

definition ffmpeg :: "env \<Rightarrow> world \<Rightarrow> string list \<Rightarrow> (error + unit) \<times> world" where
  "ffmpeg ev w args =
     (let cmd = [''ffmpeg'', ''-n'', ''-nostdin'', ''-hide_banner''] @ args;
          w1 = log_event (RunFfmpeg cmd) w
      in case ffmpeg_tool ev cmd of
           None \<Rightarrow> (Inl CalledProcessError, w1)
         | Some out \<Rightarrow>
             (if names (files w1) (last cmd) \<noteq> None then (Inl CalledProcessError, w1)
              else (Inr (), w1\<lparr>files := create_file (files w1) (last cmd) out\<rparr>)))"

section \<open>\<open>reencode\<close>\<close>

text \<open>Python's truth value of \<open>prev_result\<close>: \<open>None\<close> and \<open>0\<close> are false.\<close>

definition truthy :: "int option \<Rightarrow> bool" where
  "truthy r \<longleftrightarrow> (case r of None \<Rightarrow> False | Some v \<Rightarrow> v \<noteq> 0)"

text \<open>\<open>copy_file\<close> on the files of the world, followed by \<open>return out_file\<close>.\<close>

definition copy_and_return :: "world \<Rightarrow> path \<Rightarrow> path \<Rightarrow> (error + path option) \<times> world" where
  "copy_and_return w src out_file =
     (case copy_file (files w) src out_file of
        (Inl e, fs') \<Rightarrow> (Inl e, w\<lparr>files := fs'\<rparr>)
      | (Inr u, fs') \<Rightarrow> (Inr (Some out_file), w\<lparr>files := fs'\<rparr>))"

text \<open>The encoding itself: from the scratch path to the end of the \<open>with\<close> block.\<close>

definition reencode_encode ::
  "env \<Rightarrow> world \<Rightarrow> path \<Rightarrow> path \<Rightarrow> int \<Rightarrow> string \<Rightarrow> bool \<Rightarrow> string list \<Rightarrow> string \<Rightarrow> string
     \<Rightarrow> (error + path option) \<times> world" where
  "reencode_encode ev w in_file out_file crf preset force extra_args encoder aencoder =
     (let temp_out_file = path_join (tmp_dir ev) (basename out_file)
      in case ffmpeg ev w (extra_args @
                [''-i'', in_file, ''-c:a'', aencoder, ''-c:v'', encoder,
                 ''-crf'', str_int crf, ''-preset'', preset, temp_out_file]) of
           (Inl e, w1) \<Rightarrow> (Inl e, w1)
         | (Inr u, w1) \<Rightarrow>
             (case file_size_percent (files w1) temp_out_file in_file of
                Inl e \<Rightarrow> (Inl e, w1)
              | Inr percent \<Rightarrow>
                  (if \<not> force \<and> 100 \<le> percent then
                     (case file_size (files w1) temp_out_file of
                        Inl e \<Rightarrow> (Inl e, w1)
                      | Inr out_bytes \<Rightarrow>
                          (case insert_row ev w1 in_file crf preset (int out_bytes) of
                             (Inl e, w2) \<Rightarrow> (Inl e, w2)
                           | (Inr u, w2) \<Rightarrow> (Inl ErrorCalled, w2)))
                   else copy_and_return w1 temp_out_file out_file)))"

text \<open>The \<open>with\<close> statement: the ledger is opened and the scratch directory created; on
  every way out the scratch directory is removed.\<close>

definition reencode_with ::
  "env \<Rightarrow> world \<Rightarrow> path \<Rightarrow> path \<Rightarrow> int \<Rightarrow> string \<Rightarrow> bool \<Rightarrow> string list \<Rightarrow> bool \<Rightarrow> string \<Rightarrow> string
     \<Rightarrow> (error + path option) \<times> world" where
  "reencode_with ev w in_file out_file crf preset force extra_args dont_copy encoder aencoder =
     (let w0 = init_db w;
          w1 = w0\<lparr>files := mkdtemp (files w0) (tmp_dir ev)\<rparr>;
          (r, w2) =
            (if \<not> force then
               (case check ev w1 in_file crf preset of
                  (Inl e, w') \<Rightarrow> (Inl e, w')
                | (Inr prev_result, w') \<Rightarrow>
                    (if truthy prev_result then
                       (if dont_copy then (Inr None, w')
                        else copy_and_return w' in_file out_file)
                     else reencode_encode ev w' in_file out_file crf preset force extra_args
                            encoder aencoder))
             else reencode_encode ev w1 in_file out_file crf preset force extra_args
                    encoder aencoder)
      in (r, w2\<lparr>files := rmtree (files w2) (tmp_dir ev)\<rparr>))"

definition reencode ::
  "env \<Rightarrow> world \<Rightarrow> path \<Rightarrow> path \<Rightarrow> int \<Rightarrow> string \<Rightarrow> bool \<Rightarrow> string list \<Rightarrow> bool
     \<Rightarrow> (error + path option) \<times> world" where
  "reencode ev w in_file out_file0 crf preset force extra_args dont_copy =
     (let out_file = (if \<not> endswith out_file0 ''.mp4'' then as_mp4 out_file0 else out_file0)
      in if \<not> path_isfile (files w) in_file then (Inl ErrorCalled, w)
         else if path_islink (files w) in_file then (Inl ErrorCalled, w)
         else if path_exists (files w) out_file then (Inl ErrorCalled, w)
         else (case isvideo ev in_file of
                 Inl e \<Rightarrow> (Inl e, w)
               | Inr False \<Rightarrow> (Inl ErrorCalled, w)
               | Inr True \<Rightarrow>
                   (case probe ev in_file of
                      Inl e \<Rightarrow> (Inl e, w)
                    | Inr (codec, acodec, duration) \<Rightarrow>
                        (let encoder = (if codec = ''hevc'' then ''copy'' else ''libx265'');
                             aencoder = (if acodec = Some ''aac'' \<or> acodec = None
                                         then ''copy'' else ''aac'')
                         in if \<not> force \<and> encoder = ''copy'' \<and> aencoder = ''copy'' then
                              (if dont_copy then (Inr None, w)
                               else copy_and_return w in_file out_file)
                            else reencode_with ev w in_file out_file crf preset force
                                   extra_args dont_copy encoder aencoder))))"

section \<open>Reading the trace\<close>

fun is_encoder_run :: "event \<Rightarrow> bool" where
  "is_encoder_run (RunFfmpeg cmd) = True"
| "is_encoder_run (DbCheck k) = False"
| "is_encoder_run (DbInsert k v) = False"

fun is_ledger_call :: "event \<Rightarrow> bool" where
  "is_ledger_call (RunFfmpeg cmd) = False"
| "is_ledger_call (DbCheck k) = True"
| "is_ledger_call (DbInsert k v) = True"

definition encoder_runs :: "world \<Rightarrow> event list" where
  "encoder_runs w = filter is_encoder_run (trace w)"

definition ledger_calls :: "world \<Rightarrow> event list" where
  "ledger_calls w = filter is_ledger_call (trace w)"

text \<open>The path that \<open>reencode\<close> writes to: the requested one, renamed to \<open>.mp4\<close> if need be.\<close>

definition final_out_file :: "path \<Rightarrow> path" where
  "final_out_file out_file = (if \<not> endswith out_file ''.mp4'' then as_mp4 out_file else out_file)"

text \<open>
  The percentage of the specification, \<open>100 * s1 / s2\<close> rounded to one decimal, in the
  float arithmetic of \<open>file_size_percent\<close>; the scratch path that \<open>reencode\<close> hands
  to the encoder; and the command line it runs for an input with the given codecs.
\<close>

definition percent_of_sizes :: "nat \<Rightarrow> nat \<Rightarrow> rat" where
  "percent_of_sizes s1 s2 = py_round1 (to_double (of_int (100 * int s1) / of_int (int s2)))"

definition scratch_path :: "env \<Rightarrow> path \<Rightarrow> path" where
  "scratch_path ev out_file = path_join (tmp_dir ev) (basename (final_out_file out_file))"

definition encoder_command ::
  "env \<Rightarrow> path \<Rightarrow> path \<Rightarrow> int \<Rightarrow> string \<Rightarrow> string list \<Rightarrow> string \<Rightarrow> string option \<Rightarrow> string list" where
  "encoder_command ev in_file out_file crf preset extra_args codec acodec =
     [''ffmpeg'', ''-n'', ''-nostdin'', ''-hide_banner''] @ extra_args @
     [''-i'', in_file,
      ''-c:a'', (if acodec = Some ''aac'' \<or> acodec = None then ''copy'' else ''aac''),
      ''-c:v'', (if codec = ''hevc'' then ''copy'' else ''libx265''),
      ''-crf'', str_int crf, ''-preset'', preset,
      scratch_path ev out_file]"

text \<open>The ledger records no size of 0 bytes.\<close>

definition rows_nonzero :: "world \<Rightarrow> bool" where
  "rows_nonzero w \<longleftrightarrow> (\<forall>k. rows w k \<noteq> Some 0)"

section \<open>Example worlds\<close>

text \<open>
  A small world used to instantiate the theorems below: an h264/aac input of 1,000,000
  bytes, an empty file, an encoder that writes 1,050,000 bytes, an empty ledger table.
  The digest function of the example keeps the first 20 bytes.
\<close>

definition example_fs :: filesystem where
  "example_fs =
     \<lparr>names = [''in.mkv'' \<mapsto> File \<lparr>st_ino = 2, is_dir = False, st_dev = 0,
                                     content = replicate 1000000 CHR ''x''\<rparr>,
               ''empty.mkv'' \<mapsto> File \<lparr>st_ino = 3, is_dir = False, st_dev = 0, content = []\<rparr>],
      next_ino = 4,
      mount = (\<lambda>p. 0)\<rparr>"

definition example_env :: env where
  "example_env =
     \<lparr>ffprobe_tool = (\<lambda>p. Some \<lparr>streams = [(''video'', ''h264''), (''audio'', ''aac'')],
                                 format = Some (Some 60)\<rparr>),
      ffmpeg_tool = (\<lambda>cmd. Some (replicate 1050000 CHR ''y'')),
      sha1 = take 20,
      tmp_dir = ''/tmp/scratch''\<rparr>"

definition example_world :: world where
  "example_world = \<lparr>files = example_fs, db = Some Map.empty, trace = []\<rparr>"

definition hevc_env :: env where
  "hevc_env =
     example_env\<lparr>ffprobe_tool := (\<lambda>p. Some \<lparr>streams = [(''video'', ''hevc''), (''audio'', ''aac'')],
                                               format = Some (Some 60)\<rparr>)\<rparr>"

definition ledger_world :: world where
  "ledger_world =
     example_world\<lparr>db := Some [(replicate 20 CHR ''x'', 23, ''fast'') \<mapsto> 1050000]\<rparr>"

definition zero_world :: world where
  "zero_world = example_world\<lparr>db := Some [(replicate 20 CHR ''x'', 23, ''fast'') \<mapsto> 0]\<rparr>"

section \<open>Facts about paths\<close>

lemma rfind1_zero_iff: "rfind1 xs c = 0 \<longleftrightarrow> c \<notin> set xs"
  by (induction xs) (auto split: nat.splits)

lemma rfind1_le: "rfind1 xs c \<le> length xs"
  by (induction xs) (auto split: nat.splits)

lemma rfind1_append_without:
  "c \<notin> set ys \<Longrightarrow> rfind1 (xs @ ys) c = rfind1 xs c"
  by (induction xs) (auto simp: rfind1_zero_iff split: nat.splits)

lemma basename_no_slash: "CHR ''/'' \<notin> set (basename p)"
  unfolding basename_def
proof (induction p)
  case Nil
  then show ?case by simp
next
  case (Cons x xs)
  show ?case
  proof (cases "rfind1 xs CHR ''/''")
    case 0
    then have "CHR ''/'' \<notin> set xs" by (simp add: rfind1_zero_iff)
    with 0 show ?thesis by auto
  next
    case (Suc n)
    with Cons show ?thesis by simp
  qed
qed

lemma endswith_append: "endswith (xs @ suf) suf"
  by (simp add: endswith_def)

lemma endswith_iff: "endswith s suf \<longleftrightarrow> (\<exists>q. s = q @ suf)"
proof
  assume "endswith s suf"
  then have "s = take (length s - length suf) s @ suf"
    by (metis append_take_drop_id endswith_def)
  then show "\<exists>q. s = q @ suf" ..
next
  assume "\<exists>q. s = q @ suf"
  then show "endswith s suf" by (auto simp: endswith_def)
qed

lemma path_join_endswith:
  assumes "endswith b suf"
  shows "endswith (path_join a b) suf"
proof -
  from assms obtain q where b: "b = q @ suf" by (auto simp: endswith_iff)
  have "path_join a b = b \<or> path_join a b = a @ b \<or> path_join a b = a @ ''/'' @ b"
    by (simp add: path_join_def)
  then have "\<exists>q'. path_join a b = q' @ suf"
    unfolding b by (metis append_assoc)
  then show ?thesis by (simp add: endswith_iff)
qed

lemma final_out_file_mp4: "endswith (final_out_file f) ''.mp4''"
  by (simp add: final_out_file_def as_mp4_def Let_def path_join_endswith endswith_append)

lemma basename_of_mp4:
  assumes "endswith p ''.mp4''"
  shows "basename p \<noteq> []"
proof -
  from assms obtain q where p: "p = q @ ''.mp4''" by (auto simp: endswith_iff)
  have "rfind1 p CHR ''/'' = rfind1 q CHR ''/''"
    unfolding p by (rule rfind1_append_without) simp
  with rfind1_le [of q "CHR ''/''"] show ?thesis
    by (simp add: basename_def p)
qed

lemma path_join_differs:
  assumes "b \<noteq> []" and "CHR ''/'' \<notin> set b"
  shows "path_join a b \<noteq> a"
proof -
  from assms have "\<not> startswith b ''/''"
    by (cases b) (auto simp: startswith_def)
  with assms(1) show ?thesis by (auto simp: path_join_def)
qed

lemma scratch_path_differs: "scratch_path ev out_file \<noteq> tmp_dir ev"
  unfolding scratch_path_def
  by (rule path_join_differs [OF basename_of_mp4 [OF final_out_file_mp4] basename_no_slash])


section \<open>Facts about the file system\<close>

lemma follow_no_link: "(\<And>t. ns p \<noteq> Some (Sym t)) \<Longrightarrow> follow k ns p = Some p"
  by (cases k) (auto split: option.splits entry.splits)

lemma resolve_absent: "names fs p = None \<Longrightarrow> resolve fs p = Some p"
  by (simp add: resolve_def follow_no_link)

lemma resolve_file: "names fs p = Some (File n) \<Longrightarrow> resolve fs p = Some p"
  by (simp add: resolve_def follow_no_link)

lemma stat_file: "names fs p = Some (File n) \<Longrightarrow> stat fs p = Some n"
  by (simp add: stat_def resolve_file)

lemma stat_absent: "names fs p = None \<Longrightarrow> stat fs p = None"
  by (simp add: stat_def resolve_absent)

lemma touch_keeps:
  "touch fs p = Inr fs1 \<Longrightarrow> names fs x = Some e \<Longrightarrow> names fs1 x = Some e"
  by (auto simp: touch_def create_file_def split: option.splits if_splits)

lemma unlink_names:
  "unlink fs p = Inr fs2 \<Longrightarrow> names fs2 = (names fs)(p := None)"
  by (auto simp: unlink_def split: option.splits entry.splits if_splits)

lemma os_link_names:
  "os_link fs src dst = Inr fs' \<Longrightarrow> names fs src = Some (File n) \<Longrightarrow>
     names fs' = (names fs)(dst \<mapsto> File n)"
  by (auto simp: os_link_def stat_file split: option.splits if_splits)

lemma shutil_copy2_names:
  "shutil_copy2 fs src dst = Inr fs' \<Longrightarrow> names fs src = Some (File n) \<Longrightarrow>
     names fs dst = None \<Longrightarrow>
     \<exists>m. names fs' = (names fs)(dst \<mapsto> File m) \<and> content m = content n"
  by (auto simp: shutil_copy2_def stat_file resolve_absent create_file_def
           split: option.splits if_splits)

lemma names_create_file: "names (create_file fs q data) p = (if p = q then
    Some (File \<lparr>st_ino = next_ino fs, is_dir = False, st_dev = mount fs q, content = data\<rparr>)
    else names fs p)"
  by (simp add: create_file_def)

lemma names_mkdtemp: "p \<noteq> d \<Longrightarrow> names (mkdtemp fs d) p = names fs p"
  by (simp add: mkdtemp_def)

lemma names_mkdtemp_self:
  "names (mkdtemp fs d) d =
     Some (File \<lparr>st_ino = next_ino fs, is_dir = True, st_dev = mount fs d, content = []\<rparr>)"
  by (simp add: mkdtemp_def)

lemma in_tree_self [simp]: "in_tree d d"
  by (simp add: in_tree_def)

lemma names_rmtree: "\<not> in_tree d p \<Longrightarrow> names (rmtree fs d) p = names fs p"
  by (simp add: rmtree_def)

lemma not_link_file:
  assumes "path_isfile fs p" and "\<not> path_islink fs p"
  shows "\<exists>n. names fs p = Some (File n) \<and> \<not> is_dir n"
proof -
  from assms(2) have nl: "\<And>t. names fs p \<noteq> Some (Sym t)"
    by (auto simp: path_islink_def)
  then have "resolve fs p = Some p" by (simp add: resolve_def follow_no_link)
  with assms(1) show ?thesis
    by (auto simp: path_isfile_def stat_def split: option.splits entry.splits)
qed

lemma hash_file_dir: "names fs p = Some (File n) \<Longrightarrow> is_dir n \<Longrightarrow> hash_file ev fs p = Inl OSError"
  by (simp add: hash_file_def stat_file)

lemma hash_file_reg:
  "names fs p = Some (File n) \<Longrightarrow> \<not> is_dir n \<Longrightarrow> hash_file ev fs p = Inr (sha1 ev (content n))"
  by (simp add: hash_file_def stat_file)

lemma file_size_eq: "stat fs f = Some n \<Longrightarrow> file_size fs f = Inr (st_size n)"
  by (simp add: file_size_def)

lemma file_size_percent_eq:
  assumes "stat fs f1 = Some n1" and "stat fs f2 = Some n2" and "st_size n2 \<noteq> 0"
  shows "file_size_percent fs f1 f2 = Inr (percent_of_sizes (st_size n1) (st_size n2))"
  using assms by (simp add: file_size_percent_def true_div_def percent_of_sizes_def)

lemma percent_of_empty_divisor:
  "stat fs f2 = Some n2 \<Longrightarrow> st_size n2 = 0 \<Longrightarrow> \<exists>e. file_size_percent fs f1 f2 = Inl e"
  by (auto simp: file_size_percent_def true_div_def split: option.splits)

lemma py_round1_zero: "py_round1 (to_double 0) = 0"
  by (simp add: py_round1_def to_double_def round_half_even_def)

lemma file_size_percent_of_empty:
  assumes "file_size_percent fs f1 f2 = Inr p" and "stat fs f1 = Some n1" and "st_size n1 = 0"
  shows "p = 0"
  using assms
  by (auto simp: file_size_percent_def true_div_def py_round1_zero split: option.splits if_splits)

lemma round_105: "py_round1 (to_double 105) = 105"
  by code_simp

lemma percent_example: "percent_of_sizes 1050000 1000000 = 105"
proof -
  have "(of_int (100 * int 1050000) :: rat) / of_int (int 1000000) = 105" by simp
  then show ?thesis by (simp only: percent_of_sizes_def round_105)
qed

lemma round_half_even_near: "\<bar>of_int (round_half_even x) - x\<bar> \<le> 1 / 2"
proof -
  have "of_int \<lfloor>x\<rfloor> \<le> x" and "x < of_int \<lfloor>x\<rfloor> + 1" by linarith+
  then show ?thesis
    by (auto simp: round_half_even_def Let_def abs_le_iff)
qed

lemma percent_one_decimal:
  "\<exists>k::int. percent_of_sizes s1 s2 = to_double (of_int k / 10) \<and>
     \<bar>of_int k - 10 * to_double (of_int (100 * int s1) / of_int (int s2))\<bar> \<le> 1 / 2"
proof -
  let ?q = "to_double (of_int (100 * int s1) / of_int (int s2))"
  have "percent_of_sizes s1 s2 = to_double (of_int (round_half_even (?q * 10)) / 10)"
    by (simp add: percent_of_sizes_def py_round1_def)
  moreover have "\<bar>of_int (round_half_even (?q * 10)) - 10 * ?q\<bar> \<le> 1 / 2"
    using round_half_even_near [of "?q * 10"] by (simp add: mult.commute)
  ultimately show ?thesis by blast
qed


section \<open>Facts about the example worlds\<close>

lemma example_files [simp]:
  "files example_world = example_fs" "files ledger_world = example_fs"
  by (simp_all add: example_world_def ledger_world_def)

lemma zero_files [simp]: "files zero_world = example_fs"
  by (simp add: zero_world_def example_world_def)

lemma example_in_file:
  "names example_fs ''in.mkv'' =
     Some (File \<lparr>st_ino = 2, is_dir = False, st_dev = 0, content = replicate 1000000 CHR ''x''\<rparr>)"
  by (simp add: example_fs_def)

lemma example_empty_file:
  "names example_fs ''empty.mkv'' =
     Some (File \<lparr>st_ino = 3, is_dir = False, st_dev = 0, content = []\<rparr>)"
  by (simp add: example_fs_def)

lemma example_stat:
  "stat example_fs ''in.mkv'' =
     Some \<lparr>st_ino = 2, is_dir = False, st_dev = 0, content = replicate 1000000 CHR ''x''\<rparr>"
  by (simp add: stat_file [OF example_in_file])

lemma example_size:
  "st_size \<lparr>st_ino = 2, is_dir = False, st_dev = 0, content = replicate 1000000 CHR ''x''\<rparr> = 1000000"
  by (simp add: st_size_def)

lemma example_checks:
  "path_isfile example_fs ''in.mkv''"
  "\<not> path_islink example_fs ''in.mkv''"
  "\<not> path_exists example_fs ''out.mp4''"
  "final_out_file ''out.mp4'' = ''out.mp4''"
  by (simp_all add: path_isfile_def path_islink_def path_exists_def example_fs_def
        stat_file stat_absent final_out_file_def endswith_def)

lemma example_out_plain: "names example_fs ''out.mp4'' = None"
  by (simp add: example_fs_def)

lemma example_out_free: "names example_fs (final_out_file ''out.mp4'') = None"
  by (simp add: example_checks example_fs_def)

lemma hevc_probe: "probe hevc_env p = Inr (''hevc'', Some ''aac'', 60)"
  by (simp add: probe_def hevc_env_def example_env_def)

lemma example_probe: "probe example_env p = Inr (''h264'', Some ''aac'', 60)"
  by (simp add: probe_def example_env_def)

lemma example_hash:
  "hash_file example_env example_fs ''in.mkv'' = Inr (replicate 20 CHR ''x'')"
  by (simp add: hash_file_def example_fs_def example_env_def stat_file)

lemma example_tmp_dir: "tmp_dir example_env = ''/tmp/scratch''"
  by (simp add: example_env_def)

lemma example_outside:
  "\<not> in_tree (tmp_dir example_env) ''in.mkv''" "\<not> in_tree (tmp_dir example_env) ''out.mp4''"
  by (simp_all add: example_tmp_dir in_tree_def startswith_def)

lemma example_scratch_path: "scratch_path example_env ''out.mp4'' = ''/tmp/scratch/out.mp4''"
  unfolding scratch_path_def example_tmp_dir by code_simp

lemma example_scratch_free:
  "names example_fs (scratch_path example_env ''out.mp4'') = None"
  "scratch_path example_env ''out.mp4'' \<noteq> tmp_dir example_env"
  by (simp_all add: example_scratch_path example_tmp_dir example_fs_def)

lemma example_tool: "ffmpeg_tool example_env cmd = Some (replicate 1050000 CHR ''y'')"
  by (simp add: example_env_def)

lemma example_sha1: "sha1 example_env (replicate 1000000 CHR ''x'') = replicate 20 CHR ''x''"
  by (simp add: example_env_def)

lemma example_pct:
  "100 \<le> percent_of_sizes (length (replicate 1050000 CHR ''y'')) 1000000"
  by (simp add: percent_example)

lemma zero_world_rows:
  "rows zero_world (replicate 20 CHR ''x'', 23, ''fast'') = Some 0"
  by (simp add: zero_world_def rows_def)

lemma example_world_rows: "rows example_world k = None"
  by (simp add: example_world_def rows_def)

lemma ledger_world_nonzero: "rows_nonzero ledger_world"
  by (simp add: rows_nonzero_def rows_def ledger_world_def)

lemma example_world_nonzero: "rows_nonzero example_world"
  by (simp add: rows_nonzero_def example_world_rows)


section \<open>Placing files\<close>

lemma copy_file_result:
  assumes src: "names fs src = Some (File n)"
    and c: "copy_file fs src dst = (Inr u, fs')"
  shows "\<exists>m. names fs' dst = Some (File m) \<and> content m = content n"
    and "names fs' src = Some (File n)"
proof -
  from c have ne: "\<not> path_exists fs dst"
    by (auto simp: copy_file_def split: if_splits)
  with src have neq: "dst \<noteq> src"
    by (auto simp: path_exists_def stat_file)
  from c ne obtain fs1 where t: "touch fs dst = Inr fs1"
    by (auto simp: copy_file_def split: sum.splits)
  from c ne t obtain can_link where s: "files_on_same_fs fs1 src dst = Inr can_link"
    by (auto simp: copy_file_def split: sum.splits)
  from c ne t s obtain fs2 where ul: "unlink fs1 dst = Inr fs2"
    by (auto simp: copy_file_def split: sum.splits)
  from c ne t s ul
  have last: "(if can_link then os_link fs2 src dst else shutil_copy2 fs2 src dst) = Inr fs'"
    by (auto simp: copy_file_def split: sum.splits if_splits)
  have s1: "names fs1 src = Some (File n)" using touch_keeps [OF t src] .
  have n2: "names fs2 = (names fs1)(dst := None)" using unlink_names [OF ul] .
  with s1 neq have s2: "names fs2 src = Some (File n)" and d2: "names fs2 dst = None"
    by simp_all
  have "\<exists>m. names fs' = (names fs2)(dst \<mapsto> File m) \<and> content m = content n"
  proof (cases can_link)
    case True
    with last have "os_link fs2 src dst = Inr fs'" by simp
    from os_link_names [OF this s2] show ?thesis by blast
  next
    case False
    with last have "shutil_copy2 fs2 src dst = Inr fs'" by simp
    from shutil_copy2_names [OF this s2 d2] show ?thesis .
  qed
  then obtain m where m: "names fs' = (names fs2)(dst \<mapsto> File m)" "content m = content n"
    by blast
  then show "\<exists>m. names fs' dst = Some (File m) \<and> content m = content n" by simp
  from m s2 neq show "names fs' src = Some (File n)" by simp
qed

lemma copy_file_ok:
  assumes src: "names fs src = Some (File n)" and nd: "\<not> is_dir n"
    and dst: "names fs dst = None"
  shows "\<exists>fs'. copy_file fs src dst = (Inr (), fs')"
proof -
  from src dst have neq: "dst \<noteq> src" by auto
  have ne: "\<not> path_exists fs dst" using dst by (simp add: path_exists_def stat_absent)
  let ?fs1 = "create_file fs dst []"
  have t: "touch fs dst = Inr ?fs1" using dst by (simp add: touch_def resolve_absent)
  have s1: "names ?fs1 src = Some (File n)" using src neq by (simp add: create_file_def)
  have d1: "names ?fs1 dst =
      Some (File \<lparr>st_ino = next_ino fs, is_dir = False, st_dev = mount fs dst, content = []\<rparr>)"
    by (simp add: create_file_def)
  have s: "files_on_same_fs ?fs1 src dst = Inr (st_dev n = mount fs dst)"
    by (simp add: files_on_same_fs_def stat_file [OF s1] stat_file [OF d1])
  let ?fs2 = "?fs1\<lparr>names := (names ?fs1)(dst := None)\<rparr>"
  have ul: "unlink ?fs1 dst = Inr ?fs2" by (simp add: unlink_def d1)
  have s2: "names ?fs2 src = Some (File n)" using s1 neq by simp
  have d2: "names ?fs2 dst = None" by simp
  have m2: "mount ?fs2 dst = mount fs dst" by (simp add: create_file_def)
  have "\<exists>fs'. (if st_dev n = mount fs dst then os_link ?fs2 src dst
                else shutil_copy2 ?fs2 src dst) = Inr fs'"
  proof (cases "st_dev n = mount fs dst")
    case True
    then show ?thesis
      using nd d2 m2 by (simp add: os_link_def stat_file [OF s2])
  next
    case False
    then show ?thesis
      using nd by (simp add: shutil_copy2_def stat_file [OF s2] resolve_absent [OF d2] d2)
  qed
  then obtain fs' where "(if st_dev n = mount fs dst then os_link ?fs2 src dst
                else shutil_copy2 ?fs2 src dst) = Inr fs'" by blast
  with ne t s ul show ?thesis
    by (simp add: copy_file_def)
qed

lemma copy_and_return_result:
  assumes src: "names (files w) src = Some (File n)"
    and c: "copy_and_return w src out = (Inr x, w')"
  shows "x = Some out"
    and "\<exists>m. names (files w') out = Some (File m) \<and> content m = content n"
    and "names (files w') src = Some (File n)"
proof -
  from c obtain u fs' where cf: "copy_file (files w) src out = (Inr u, fs')"
    and x: "x = Some out" and w': "w' = w\<lparr>files := fs'\<rparr>"
    by (auto simp: copy_and_return_def split: prod.splits sum.splits)
  from x show "x = Some out" .
  from copy_file_result [OF src cf] w'
  show "\<exists>m. names (files w') out = Some (File m) \<and> content m = content n"
    and "names (files w') src = Some (File n)" by simp_all
qed

lemma copy_and_return_ok:
  assumes "names (files w) src = Some (File n)" and "\<not> is_dir n"
    and "names (files w) out = None"
  shows "\<exists>w'. copy_and_return w src out = (Inr (Some out), w')"
proof -
  from copy_file_ok [OF assms] obtain fs' where "copy_file (files w) src out = (Inr (), fs')"
    by blast
  then show ?thesis by (simp add: copy_and_return_def)
qed

text \<open>
  C5. When something exists at the destination, \<open>copy_file\<close> raises \<open>ErrorCalled\<close> and
  the file system is exactly as before: neither the source nor the destination that was
  there is touched.
\<close>

theorem copy_file_refuses_existing:
  "path_exists fs dst \<Longrightarrow> copy_file fs src dst = (Inl ErrorCalled, fs)"
  by (simp add: copy_file_def)

theorem copy_file_refuses_existing_witness:
  "path_exists example_fs ''in.mkv'' \<and>
   copy_file example_fs ''empty.mkv'' ''in.mkv'' = (Inl ErrorCalled, example_fs)"
proof -
  have ex: "path_exists example_fs ''in.mkv''"
    by (simp add: path_exists_def example_fs_def stat_file)
  from copy_file_refuses_existing [OF ex, of "''empty.mkv''"] ex show ?thesis by simp
qed


section \<open>The ledger\<close>

lemma rows_log_event [simp]: "rows (log_event e w) = rows w"
  by (simp add: rows_def log_event_def)

lemma rows_files_update [simp]: "rows (w\<lparr>files := f\<rparr>) = rows w"
  by (simp add: rows_def)

lemma rows_init_db [simp]: "rows (init_db w) = rows w"
  by (simp add: rows_def init_db_def split: option.splits)

lemma rows_eq_of_db: "db w' = db w \<Longrightarrow> rows w' = rows w"
  by (simp add: rows_def)

lemma check_frame:
  assumes "check ev w f crf preset = (r, w')"
  shows "db w' = db w" and "files w' = files w"
    and "encoder_runs w' = encoder_runs w"
  using assms
  by (auto simp: check_def Let_def log_event_def encoder_runs_def split: sum.splits option.splits)

lemma check_hit:
  assumes "hash_file ev (files w) f = Inr h" and "db w = Some t"
  shows "check ev w f crf preset = (Inr (t (h, crf, preset)), log_event (DbCheck (h, crf, preset)) w)"
  using assms by (simp add: check_def Let_def log_event_def)

lemma insert_row_frame:
  assumes "insert_row ev w f crf preset v = (r, w')"
  shows "rows w \<subseteq>\<^sub>m rows w'" and "files w' = files w"
    and "encoder_runs w' = encoder_runs w"
  using assms
  by (auto simp: insert_row_def Let_def log_event_def rows_def map_le_def encoder_runs_def
           split: sum.splits option.splits if_splits)

lemma insert_row_eval:
  assumes "hash_file ev (files w) f = Inr h" and "db w = Some t"
  shows "insert_row ev w f crf preset v =
     (if t (h, crf, preset) \<noteq> None
      then (Inl IntegrityError, log_event (DbInsert (h, crf, preset) v) w)
      else (Inr (), (log_event (DbInsert (h, crf, preset) v) w)
                      \<lparr>db := Some (t((h, crf, preset) \<mapsto> v))\<rparr>))"
  using assms by (simp add: insert_row_def Let_def log_event_def)

lemma insert_row_rows:
  assumes "insert_row ev w f crf preset v = (r, w')"
  shows "rows w' = rows w \<or> (\<exists>h. rows w' = (rows w)((h, crf, preset) \<mapsto> v))"
  using assms
  by (auto simp: insert_row_def Let_def log_event_def rows_def
           split: sum.splits option.splits if_splits)

text \<open>
  C4. When \<open>insert\<close> returns, a \<open>check\<close> on the same file, crf and preset returns the
  value just recorded; and \<open>insert\<close> does return when the table has no row for the key.
\<close>

theorem insert_then_check:
  "(insert_row ev w f crf preset v = (Inr u, w') \<longrightarrow>
      fst (check ev w' f crf preset) = Inr (Some v)) \<and>
   (hash_file ev (files w) f = Inr h \<and> db w = Some t \<and> t (h, crf, preset) = None \<longrightarrow>
      fst (insert_row ev w f crf preset v) = Inr ())"
  by (auto simp: insert_row_def check_def log_event_def Let_def
           split: sum.splits option.splits if_splits)

theorem insert_then_check_witness:
  "fst (insert_row example_env example_world ''in.mkv'' 23 ''fast'' 1050000) = Inr () \<and>
   fst (check example_env (snd (insert_row example_env example_world ''in.mkv'' 23 ''fast'' 1050000))
          ''in.mkv'' 23 ''fast'') = Inr (Some 1050000)"
proof -
  let ?ins = "insert_row example_env example_world ''in.mkv'' 23 ''fast'' 1050000"
  have h: "hash_file example_env (files example_world) ''in.mkv'' = Inr (replicate 20 CHR ''x'')"
    by (simp add: example_world_def example_hash)
  have d: "db example_world = Some Map.empty"
    by (simp add: example_world_def)
  note inst = insert_then_check [of example_env example_world "''in.mkv''" 23 "''fast''" 1050000
      "()" "snd ?ins" "replicate 20 CHR ''x''" Map.empty]
  from inst h d have ok: "fst ?ins = Inr ()" by simp
  then have "?ins = (Inr (), snd ?ins)" by (metis prod.collapse)
  with inst ok show ?thesis by simp
qed


section \<open>What each step of \<open>reencode\<close> leaves unchanged\<close>

lemma ffmpeg_frame:
  assumes "ffmpeg ev w args = (r, w')"
  shows "db w' = db w"
    and "trace w' = trace w @ [RunFfmpeg ([''ffmpeg'', ''-n'', ''-nostdin'', ''-hide_banner''] @ args)]"
  using assms
  by (auto simp: ffmpeg_def Let_def log_event_def split: option.splits if_splits)

lemma ffmpeg_ok:
  assumes "ffmpeg_tool ev ([''ffmpeg'', ''-n'', ''-nostdin'', ''-hide_banner''] @ args @ [target]) = Some data"
    and "names (files w) target = None"
  shows "ffmpeg ev w (args @ [target]) =
    (Inr (), (log_event (RunFfmpeg ([''ffmpeg'', ''-n'', ''-nostdin'', ''-hide_banner''] @ args @ [target])) w)
               \<lparr>files := create_file (files w) target data\<rparr>)"
  using assms by (simp add: ffmpeg_def Let_def log_event_def)

lemma ffmpeg_keeps_names:
  assumes "ffmpeg ev w args = (r, w1)" and "names (files w) p = Some e"
  shows "names (files w1) p = Some e"
  using assms
  by (auto simp: ffmpeg_def Let_def log_event_def create_file_def split: option.splits if_splits)

lemma copy_and_return_frame:
  assumes "copy_and_return w src out = (r, w')"
  shows "db w' = db w" and "trace w' = trace w"
  using assms
  by (auto simp: copy_and_return_def split: prod.splits sum.splits)

lemma encoder_runs_eq_of_trace: "trace w' = trace w \<Longrightarrow> encoder_runs w' = encoder_runs w"
  by (simp add: encoder_runs_def)

lemma reencode_encode_rows:
  assumes "reencode_encode ev w in_file out_file crf preset force extra_args enc aenc = (r, w')"
  shows "rows w \<subseteq>\<^sub>m rows w'"
proof -
  let ?temp = "path_join (tmp_dir ev) (basename out_file)"
  let ?args = "extra_args @ [''-i'', in_file, ''-c:a'', aenc, ''-c:v'', enc,
                 ''-crf'', str_int crf, ''-preset'', preset, ?temp]"
  obtain r1 w1 where f: "ffmpeg ev w ?args = (r1, w1)" by (cases "ffmpeg ev w ?args")
  have r1: "rows w1 = rows w" using ffmpeg_frame(1) [OF f] by (rule rows_eq_of_db)
  show ?thesis
  proof (cases r1)
    case (Inl e)
    with assms f r1 show ?thesis by (simp add: reencode_encode_def Let_def)
  next
    case (Inr u)
    show ?thesis
    proof (cases "file_size_percent (files w1) ?temp in_file")
      case (Inl e)
      with assms f r1 Inr show ?thesis by (simp add: reencode_encode_def Let_def)
    next
      case pct: (Inr percent)
      show ?thesis
      proof (cases "\<not> force \<and> 100 \<le> percent")
        case False
        with assms f Inr pct
        have "copy_and_return w1 ?temp out_file = (r, w')"
          by (auto simp add: reencode_encode_def Let_def)
        from copy_and_return_frame(1) [OF this] r1 show ?thesis
          by (simp add: rows_def)
      next
        case True
        show ?thesis
        proof (cases "file_size (files w1) ?temp")
          case (Inl e)
          with assms f r1 Inr pct True show ?thesis by (simp add: reencode_encode_def Let_def)
        next
          case ob: (Inr out_bytes)
          obtain r2 w2 where i: "insert_row ev w1 in_file crf preset (int out_bytes) = (r2, w2)"
            by (cases "insert_row ev w1 in_file crf preset (int out_bytes)")
          with assms f Inr pct True ob have "w' = w2"
            by (auto simp add: reencode_encode_def Let_def split: sum.splits)
          with insert_row_frame(1) [OF i] r1 show ?thesis by simp
        qed
      qed
    qed
  qed
qed

lemma reencode_encode_force:
  assumes "reencode_encode ev w in_file out_file crf preset True extra_args enc aenc = (r, w')"
  shows "db w' = db w" and "\<exists>cmd. trace w' = trace w @ [RunFfmpeg cmd]"
proof -
  let ?temp = "path_join (tmp_dir ev) (basename out_file)"
  let ?args = "extra_args @ [''-i'', in_file, ''-c:a'', aenc, ''-c:v'', enc,
                 ''-crf'', str_int crf, ''-preset'', preset, ?temp]"
  obtain r1 w1 where f: "ffmpeg ev w ?args = (r1, w1)" by (cases "ffmpeg ev w ?args")
  note fr = ffmpeg_frame [OF f]
  have "db w' = db w \<and> trace w' = trace w1"
  proof (cases r1)
    case (Inl e)
    with assms f fr show ?thesis by (simp add: reencode_encode_def Let_def)
  next
    case (Inr u)
    show ?thesis
    proof (cases "file_size_percent (files w1) ?temp in_file")
      case (Inl e)
      with assms f fr Inr show ?thesis by (simp add: reencode_encode_def Let_def)
    next
      case pct: (Inr percent)
      with assms f Inr
      have "copy_and_return w1 ?temp out_file = (r, w')"
        by (simp add: reencode_encode_def Let_def)
      from copy_and_return_frame [OF this] fr show ?thesis by simp
    qed
  qed
  with fr show "db w' = db w" and "\<exists>cmd. trace w' = trace w @ [RunFfmpeg cmd]" by simp_all
qed

lemma reencode_with_rows:
  assumes "reencode_with ev w in_file out_file crf preset force extra_args dont_copy enc aenc = (r, w')"
  shows "rows w \<subseteq>\<^sub>m rows w'"
proof -
  let ?w1 = "(init_db w)\<lparr>files := mkdtemp (files (init_db w)) (tmp_dir ev)\<rparr>"
  have r1: "rows ?w1 = rows w" by simp
  show ?thesis
  proof (cases force)
    case True
    obtain r2 w2 where e: "reencode_encode ev ?w1 in_file out_file crf preset force extra_args enc aenc = (r2, w2)"
      by (cases "reencode_encode ev ?w1 in_file out_file crf preset force extra_args enc aenc")
    with assms True have "w' = w2\<lparr>files := rmtree (files w2) (tmp_dir ev)\<rparr>"
      by (simp add: reencode_with_def Let_def)
    with reencode_encode_rows [OF e] r1 show ?thesis by simp
  next
    case False
    obtain rc wc where c: "check ev ?w1 in_file crf preset = (rc, wc)"
      by (cases "check ev ?w1 in_file crf preset")
    have rc: "rows wc = rows w" using check_frame(1) [OF c] r1 by (simp add: rows_def)
    show ?thesis
    proof (cases rc)
      case (Inl e)
      with assms False c have "w' = wc\<lparr>files := rmtree (files wc) (tmp_dir ev)\<rparr>"
        by (simp add: reencode_with_def Let_def)
      with rc show ?thesis by simp
    next
      case (Inr prev_result)
      show ?thesis
      proof (cases "truthy prev_result")
        case t: True
        show ?thesis
        proof (cases dont_copy)
          case True
          with assms False c Inr t have "w' = wc\<lparr>files := rmtree (files wc) (tmp_dir ev)\<rparr>"
            by (simp add: reencode_with_def Let_def)
          with rc show ?thesis by simp
        next
          case dc: False
          obtain r2 w2 where cr: "copy_and_return wc in_file out_file = (r2, w2)"
            by (cases "copy_and_return wc in_file out_file")
          with assms False c Inr t dc have "w' = w2\<lparr>files := rmtree (files w2) (tmp_dir ev)\<rparr>"
            by (simp add: reencode_with_def Let_def)
          with copy_and_return_frame(1) [OF cr] rc show ?thesis by (simp add: rows_def)
        qed
      next
        case f: False
        obtain r2 w2 where e: "reencode_encode ev wc in_file out_file crf preset force extra_args enc aenc = (r2, w2)"
          by (cases "reencode_encode ev wc in_file out_file crf preset force extra_args enc aenc")
        with assms False c Inr f have "w' = w2\<lparr>files := rmtree (files w2) (tmp_dir ev)\<rparr>"
          by (simp add: reencode_with_def Let_def)
        with reencode_encode_rows [OF e] rc show ?thesis by simp
      qed
    qed
  qed
qed

lemma reencode_with_force:
  assumes "reencode_with ev w in_file out_file crf preset True extra_args dont_copy enc aenc = (r, w')"
  shows "rows w' = rows w" and "\<exists>cmd. trace w' = trace w @ [RunFfmpeg cmd]"
proof -
  let ?w1 = "(init_db w)\<lparr>files := mkdtemp (files (init_db w)) (tmp_dir ev)\<rparr>"
  obtain r2 w2 where e: "reencode_encode ev ?w1 in_file out_file crf preset True extra_args enc aenc = (r2, w2)"
    by (cases "reencode_encode ev ?w1 in_file out_file crf preset True extra_args enc aenc")
  with assms have w': "w' = w2\<lparr>files := rmtree (files w2) (tmp_dir ev)\<rparr>"
    by (simp add: reencode_with_def Let_def)
  from reencode_encode_force(1) [OF e] have "rows w2 = rows ?w1" by (rule rows_eq_of_db)
  with w' show "rows w' = rows w" by simp
  from reencode_encode_force(2) [OF e] w'
  show "\<exists>cmd. trace w' = trace w @ [RunFfmpeg cmd]" by (simp add: init_db_def)
qed

lemma reencode_cases:
  assumes "reencode ev w in_file out_file0 crf preset force extra_args dont_copy = (r, w')"
  obtains
    (failed) e where "r = Inl e" and "w' = w"
      and "\<not> path_isfile (files w) in_file \<or> path_islink (files w) in_file \<or>
           path_exists (files w) (final_out_file out_file0) \<or> (\<exists>e'. probe ev in_file = Inl e')"
  | (no_action) codec acodec duration where
      "path_isfile (files w) in_file" and "\<not> path_islink (files w) in_file"
      and "\<not> path_exists (files w) (final_out_file out_file0)"
      and "probe ev in_file = Inr (codec, acodec, duration)"
      and "\<not> force" and "codec = ''hevc''" and "acodec = Some ''aac'' \<or> acodec = None"
      and "dont_copy" and "r = Inr None" and "w' = w"
  | (duplicate) codec acodec duration where
      "path_isfile (files w) in_file" and "\<not> path_islink (files w) in_file"
      and "\<not> path_exists (files w) (final_out_file out_file0)"
      and "probe ev in_file = Inr (codec, acodec, duration)"
      and "\<not> force" and "codec = ''hevc''" and "acodec = Some ''aac'' \<or> acodec = None"
      and "\<not> dont_copy"
      and "copy_and_return w in_file (final_out_file out_file0) = (r, w')"
  | (encode) codec acodec duration where
      "path_isfile (files w) in_file" and "\<not> path_islink (files w) in_file"
      and "\<not> path_exists (files w) (final_out_file out_file0)"
      and "probe ev in_file = Inr (codec, acodec, duration)"
      and "force \<or> \<not> (codec = ''hevc'' \<and> (acodec = Some ''aac'' \<or> acodec = None))"
      and "reencode_with ev w in_file (final_out_file out_file0) crf preset force extra_args
             dont_copy (if codec = ''hevc'' then ''copy'' else ''libx265'')
             (if acodec = Some ''aac'' \<or> acodec = None then ''copy'' else ''aac'') = (r, w')"
proof (cases "path_isfile (files w) in_file \<and> \<not> path_islink (files w) in_file
               \<and> \<not> path_exists (files w) (final_out_file out_file0)")
  case False
  with assms have "\<exists>e. r = Inl e \<and> w' = w"
    by (auto simp: reencode_def final_out_file_def Let_def split: if_splits)
  with failed False show ?thesis by blast
next
  case chk: True
  show ?thesis
  proof (cases "probe ev in_file")
    case (Inl e)
    with assms chk have "\<exists>e. r = Inl e \<and> w' = w"
      by (auto simp: reencode_def final_out_file_def isvideo_def Let_def
               split: if_splits error.splits)
    with failed Inl show ?thesis by blast
  next
    case (Inr t)
    obtain codec acodec duration where t: "t = (codec, acodec, duration)" by (cases t)
    have iv: "isvideo ev in_file = Inr True" using Inr by (simp add: isvideo_def)
    show ?thesis
    proof (cases "\<not> force \<and> codec = ''hevc'' \<and> (acodec = Some ''aac'' \<or> acodec = None)")
      case False
      with assms chk Inr t iv
      have "reencode_with ev w in_file (final_out_file out_file0) crf preset force extra_args
             dont_copy (if codec = ''hevc'' then ''copy'' else ''libx265'')
             (if acodec = Some ''aac'' \<or> acodec = None then ''copy'' else ''aac'') = (r, w')"
        by (auto simp: reencode_def final_out_file_def Let_def split: if_splits)
      with encode [of codec acodec duration] chk Inr t False show ?thesis by blast
    next
      case sc: True
      show ?thesis
      proof (cases dont_copy)
        case True
        with assms chk Inr t iv sc have "r = Inr None \<and> w' = w"
          by (auto simp: reencode_def final_out_file_def Let_def split: if_splits)
        with no_action [of codec acodec duration] chk Inr t sc True show ?thesis by blast
      next
        case False
        with assms chk Inr t iv sc
        have "copy_and_return w in_file (final_out_file out_file0) = (r, w')"
          by (auto simp: reencode_def final_out_file_def Let_def split: if_splits)
        with duplicate [of codec acodec duration] chk Inr t sc False show ?thesis by blast
      qed
    qed
  qed
qed

lemma reencode_rows:
  assumes "reencode ev w in_file out_file crf preset force extra_args dont_copy = (r, w')"
  shows "rows w \<subseteq>\<^sub>m rows w'"
  using assms
proof (cases rule: reencode_cases)
  case (duplicate codec acodec duration)
  from copy_and_return_frame(1) [OF duplicate(9)] show ?thesis by (simp add: rows_def)
next
  case (encode codec acodec duration)
  from reencode_with_rows [OF encode(6)] show ?thesis .
qed simp_all

lemma init_db_fields [simp]:
  "files (init_db w) = files w" "trace (init_db w) = trace w" "db (init_db w) = Some (rows w)"
  by (simp_all add: init_db_def)

lemma reencode_with_unfold:
  "reencode_with ev w in_file out crf preset False extra_args dont_copy enc aenc =
     (let w1 = (init_db w)\<lparr>files := mkdtemp (files w) (tmp_dir ev)\<rparr>;
          (rc, wc) = check ev w1 in_file crf preset;
          (r, w2) = (case rc of
                       Inl e \<Rightarrow> (Inl e, wc)
                     | Inr prev_result \<Rightarrow>
                         (if truthy prev_result then
                            (if dont_copy then (Inr None, wc)
                             else copy_and_return wc in_file out)
                          else reencode_encode ev wc in_file out crf preset False extra_args
                                 enc aenc))
      in (r, w2\<lparr>files := rmtree (files w2) (tmp_dir ev)\<rparr>))"
  by (simp add: reencode_with_def Let_def split: prod.splits sum.splits)


section \<open>The ledger is append-only\<close>

text \<open>
  C6. The ledger is append-only. An \<open>insert\<close> on a key that has a row raises the
  primary-key violation and leaves the table as it was, and a row that is in the table
  is still there, with the same \<open>output_bytes\<close>, after \<open>init_db\<close>, \<open>check\<close>,
  \<open>insert\<close> and a whole run of \<open>reencode\<close>.
\<close>

theorem ledger_rows_are_never_replaced:
  "(hash_file ev (files w) f = Inr h \<and> rows w (h, crf, preset) = Some v \<longrightarrow>
      insert_row ev w f crf preset v' =
        (Inl IntegrityError, log_event (DbInsert (h, crf, preset) v') w)) \<and>
   (rows w k = Some v \<longrightarrow>
      rows (init_db w) k = Some v \<and>
      rows (snd (check ev w f crf preset)) k = Some v \<and>
      rows (snd (insert_row ev w f crf preset v')) k = Some v \<and>
      rows (snd (reencode ev w in_file out_file crf preset force extra_args dont_copy)) k = Some v)"
proof (intro conjI impI)
  assume "hash_file ev (files w) f = Inr h \<and> rows w (h, crf, preset) = Some v"
  then show "insert_row ev w f crf preset v' =
        (Inl IntegrityError, log_event (DbInsert (h, crf, preset) v') w)"
    by (auto simp: insert_row_def Let_def rows_def log_event_def split: option.splits)
next
  assume k: "rows w k = Some v"
  then show "rows (init_db w) k = Some v" by simp
next
  assume k: "rows w k = Some v"
  have "db (snd (check ev w f crf preset)) = db w"
    by (rule check_frame(1) [of ev w f crf preset "fst (check ev w f crf preset)"]) simp
  with k show "rows (snd (check ev w f crf preset)) k = Some v" by (simp add: rows_def)
next
  assume k: "rows w k = Some v"
  have "rows w \<subseteq>\<^sub>m rows (snd (insert_row ev w f crf preset v'))"
    by (rule insert_row_frame(1) [of ev w f crf preset v' "fst (insert_row ev w f crf preset v')"]) simp
  with k show "rows (snd (insert_row ev w f crf preset v')) k = Some v"
    by (metis domI map_le_def)
next
  assume k: "rows w k = Some v"
  let ?R = "reencode ev w in_file out_file crf preset force extra_args dont_copy"
  have "rows w \<subseteq>\<^sub>m rows (snd ?R)"
    by (rule reencode_rows [of ev w in_file out_file crf preset force extra_args dont_copy "fst ?R"]) simp
  with k show "rows (snd ?R) k = Some v"
    by (metis domI map_le_def)
qed

theorem ledger_rows_are_never_replaced_witness:
  "hash_file example_env (files ledger_world) ''in.mkv'' = Inr (replicate 20 CHR ''x'') \<and>
   rows ledger_world (replicate 20 CHR ''x'', 23, ''fast'') = Some 1050000 \<and>
   insert_row example_env ledger_world ''in.mkv'' 23 ''fast'' 7 =
     (Inl IntegrityError, log_event (DbInsert (replicate 20 CHR ''x'', 23, ''fast'') 7) ledger_world) \<and>
   rows (init_db ledger_world) (replicate 20 CHR ''x'', 23, ''fast'') = Some 1050000 \<and>
   rows (snd (check example_env ledger_world ''in.mkv'' 23 ''fast''))
     (replicate 20 CHR ''x'', 23, ''fast'') = Some 1050000 \<and>
   rows (snd (insert_row example_env ledger_world ''in.mkv'' 23 ''fast'' 7))
     (replicate 20 CHR ''x'', 23, ''fast'') = Some 1050000 \<and>
   rows (snd (reencode example_env ledger_world ''in.mkv'' ''out.mp4'' 23 ''fast'' False [] False))
     (replicate 20 CHR ''x'', 23, ''fast'') = Some 1050000"
proof -
  have h: "hash_file example_env (files ledger_world) ''in.mkv'' = Inr (replicate 20 CHR ''x'')"
    by (simp add: example_hash)
  have r: "rows ledger_world (replicate 20 CHR ''x'', 23, ''fast'') = Some 1050000"
    by (simp add: rows_def ledger_world_def)
  from ledger_rows_are_never_replaced [where ev = example_env and w = ledger_world
      and f = "''in.mkv''" and h = "replicate 20 CHR ''x''" and crf = 23 and preset = "''fast''"
      and v = 1050000 and v' = 7 and k = "(replicate 20 CHR ''x'', 23, ''fast'')"
      and in_file = "''in.mkv''" and out_file = "''out.mp4''" and force = False
      and extra_args = "[]" and dont_copy = False] h r
  show ?thesis by simp
qed


section \<open>Forced runs\<close>

text \<open>
  C7. With \<open>force\<close> set, \<open>reencode\<close> makes no ledger call (neither \<open>check\<close> nor
  \<open>insert\<close>), the rows of the ledger are unchanged, and when the checks on the input
  pass the encoder is run whatever the codecs are: the shortcut for inputs that are
  already hevc/aac is not taken.
\<close>

theorem force_bypasses_ledger:
  assumes "reencode ev w in_file out_file crf preset True extra_args dont_copy = (r, w')"
  shows "rows w' = rows w \<and> ledger_calls w' = ledger_calls w \<and>
     (path_isfile (files w) in_file \<and> \<not> path_islink (files w) in_file \<and>
      \<not> path_exists (files w) (final_out_file out_file) \<and>
      probe ev in_file = Inr (codec, acodec, duration) \<longrightarrow>
        (\<exists>cmd. trace w' = trace w @ [RunFfmpeg cmd]))"
  using assms
proof (cases rule: reencode_cases)
  case (failed e)
  then show ?thesis by auto
next
  case (encode c a d)
  from reencode_with_force [OF encode(6)] show ?thesis
    by (auto simp: ledger_calls_def)
qed simp_all

theorem force_bypasses_ledger_witness:
  "path_isfile (files example_world) ''in.mkv'' \<and> \<not> path_islink (files example_world) ''in.mkv'' \<and>
   \<not> path_exists (files example_world) (final_out_file ''out.mp4'') \<and>
   probe hevc_env ''in.mkv'' = Inr (''hevc'', Some ''aac'', 60) \<and>
   rows (snd (reencode hevc_env example_world ''in.mkv'' ''out.mp4'' 23 ''fast'' True [] False))
     = rows example_world \<and>
   ledger_calls (snd (reencode hevc_env example_world ''in.mkv'' ''out.mp4'' 23 ''fast'' True [] False))
     = ledger_calls example_world \<and>
   (\<exists>cmd. trace (snd (reencode hevc_env example_world ''in.mkv'' ''out.mp4'' 23 ''fast'' True [] False))
            = trace example_world @ [RunFfmpeg cmd])"
proof -
  let ?R = "reencode hevc_env example_world ''in.mkv'' ''out.mp4'' 23 ''fast'' True [] False"
  have eq: "?R = (fst ?R, snd ?R)" by simp
  from force_bypasses_ledger [OF eq, of "''hevc''" "Some ''aac''" 60] example_checks hevc_probe
  show ?thesis by simp
qed


section \<open>Inputs already in the target format\<close>

text \<open>
  C3. For an input probed as hevc video with aac or no audio, \<open>reencode\<close> without
  \<open>force\<close> never runs the encoder. Whenever it returns, it returns the no-action signal
  and leaves the world alone (\<open>dont_copy\<close>), or it returns the output path, which then
  holds the bytes of the input; and it does return when the input is a regular file,
  not a link, and nothing is at the output path.
\<close>

theorem already_target_never_encodes:
  assumes "probe ev in_file = Inr (''hevc'', acodec, duration)"
    and "acodec = Some ''aac'' \<or> acodec = None"
    and "reencode ev w in_file out_file crf preset False extra_args dont_copy = (r, w')"
  shows "encoder_runs w' = encoder_runs w \<and>
    (\<forall>x. r = Inr x \<longrightarrow>
       (if dont_copy then x = None \<and> w' = w
        else x = Some (final_out_file out_file) \<and>
             (\<exists>n m. names (files w) in_file = Some (File n) \<and>
                    names (files w') in_file = Some (File n) \<and>
                    names (files w') (final_out_file out_file) = Some (File m) \<and>
                    content m = content n))) \<and>
    (path_isfile (files w) in_file \<and> \<not> path_islink (files w) in_file \<and>
     names (files w) (final_out_file out_file) = None \<longrightarrow> (\<exists>x. r = Inr x))"
  using assms(3)
proof (cases rule: reencode_cases)
  case (failed e)
  with assms(1) show ?thesis
    by (auto simp: path_exists_def stat_absent)
next
  case (no_action codec a d)
  then show ?thesis by simp
next
  case (duplicate codec a d)
  from not_link_file [OF duplicate(1,2)] obtain n
    where n: "names (files w) in_file = Some (File n)" "\<not> is_dir n" by blast
  note cr = duplicate(9)
  have tr: "encoder_runs w' = encoder_runs w"
    using copy_and_return_frame(2) [OF cr] by (rule encoder_runs_eq_of_trace)
  have res: "\<forall>x. r = Inr x \<longrightarrow>
        x = Some (final_out_file out_file) \<and>
             (\<exists>n m. names (files w) in_file = Some (File n) \<and>
                    names (files w') in_file = Some (File n) \<and>
                    names (files w') (final_out_file out_file) = Some (File m) \<and>
                    content m = content n)"
  proof (intro allI impI)
    fix x assume "r = Inr x"
    with cr have c: "copy_and_return w in_file (final_out_file out_file) = (Inr x, w')" by simp
    from copy_and_return_result [OF n(1) c] n(1)
    show "x = Some (final_out_file out_file) \<and>
             (\<exists>n m. names (files w) in_file = Some (File n) \<and>
                    names (files w') in_file = Some (File n) \<and>
                    names (files w') (final_out_file out_file) = Some (File m) \<and>
                    content m = content n)" by blast
  qed
  have ok: "names (files w) (final_out_file out_file) = None \<longrightarrow> (\<exists>x. r = Inr x)"
  proof
    assume "names (files w) (final_out_file out_file) = None"
    from copy_and_return_ok [OF n this] cr show "\<exists>x. r = Inr x" by auto
  qed
  from tr res ok duplicate(8) show ?thesis by simp
next
  case (encode codec a d)
  with assms(1,2) show ?thesis by auto
qed

theorem already_target_never_encodes_witness:
  "probe hevc_env ''in.mkv'' = Inr (''hevc'', Some ''aac'', 60) \<and>
   path_isfile (files example_world) ''in.mkv'' \<and> \<not> path_islink (files example_world) ''in.mkv'' \<and>
   names (files example_world) (final_out_file ''out.mp4'') = None \<and>
   encoder_runs (snd (reencode hevc_env example_world ''in.mkv'' ''out.mp4'' 23 ''fast'' False [] False))
     = encoder_runs example_world \<and>
   fst (reencode hevc_env example_world ''in.mkv'' ''out.mp4'' 23 ''fast'' False [] False)
     = Inr (Some ''out.mp4'') \<and>
   (\<exists>n m. names (files example_world) ''in.mkv'' = Some (File n) \<and>
      names (files (snd (reencode hevc_env example_world ''in.mkv'' ''out.mp4'' 23 ''fast'' False [] False)))
        ''out.mp4'' = Some (File m) \<and>
      content m = content n)"
proof -
  let ?R = "reencode hevc_env example_world ''in.mkv'' ''out.mp4'' 23 ''fast'' False [] False"
  have eq: "?R = (fst ?R, snd ?R)" by simp
  have ac: "Some ''aac'' = Some ''aac'' \<or> Some ''aac'' = (None :: string option)" by simp
  have chk: "path_isfile (files example_world) ''in.mkv''"
    "\<not> path_islink (files example_world) ''in.mkv''"
    "names (files example_world) (final_out_file ''out.mp4'') = None"
    by (simp_all add: example_checks example_out_plain)
  note inst = already_target_never_encodes [OF hevc_probe ac eq]
  from inst have runs: "encoder_runs (snd ?R) = encoder_runs example_world" by blast
  from inst chk obtain x where x: "fst ?R = Inr x" by blast
  from inst have "\<forall>x. fst ?R = Inr x \<longrightarrow>
       (if False then x = None \<and> snd ?R = example_world
        else x = Some (final_out_file ''out.mp4'') \<and>
             (\<exists>n m. names (files example_world) ''in.mkv'' = Some (File n) \<and>
                    names (files (snd ?R)) ''in.mkv'' = Some (File n) \<and>
                    names (files (snd ?R)) (final_out_file ''out.mp4'') = Some (File m) \<and>
                    content m = content n))"
    by blast
  from this [rule_format, OF x]
  have "x = Some ''out.mp4''" and
    "\<exists>n m. names (files example_world) ''in.mkv'' = Some (File n) \<and>
           names (files (snd ?R)) ''out.mp4'' = Some (File m) \<and> content m = content n"
    by (auto simp: example_checks)
  with x runs chk hevc_probe show ?thesis by simp
qed


section \<open>Recorded sizes are never 0\<close>

text \<open>
  A size is recorded only after a percentage of at least 100, which an empty output
  never has. So a ledger that starts without a table, and is written by \<open>reencode\<close>
  only, never holds a row that records 0 bytes.
\<close>

lemma insert_row_nonzero:
  assumes "rows_nonzero w" and "v \<noteq> 0" and "insert_row ev w f crf preset v = (r, w')"
  shows "rows_nonzero w'"
  using insert_row_rows [OF assms(3)] assms(1,2)
  by (auto simp: rows_nonzero_def split: if_splits)

lemma rows_nonzero_cong: "rows w' = rows w \<Longrightarrow> rows_nonzero w \<Longrightarrow> rows_nonzero w'"
  by (simp add: rows_nonzero_def)

lemma reencode_encode_nonzero:
  assumes inv: "rows_nonzero w"
    and run: "reencode_encode ev w in_file out_file crf preset force extra_args enc aenc = (r, w')"
  shows "rows_nonzero w'"
proof -
  let ?temp = "path_join (tmp_dir ev) (basename out_file)"
  let ?args = "extra_args @ [''-i'', in_file, ''-c:a'', aenc, ''-c:v'', enc,
                 ''-crf'', str_int crf, ''-preset'', preset, ?temp]"
  obtain r1 w1 where f: "ffmpeg ev w ?args = (r1, w1)" by (cases "ffmpeg ev w ?args")
  have r1: "rows w1 = rows w" using ffmpeg_frame(1) [OF f] by (rule rows_eq_of_db)
  with inv have inv1: "rows_nonzero w1" by (simp add: rows_nonzero_def)
  show ?thesis
  proof (cases r1)
    case (Inl e)
    with run f inv1 show ?thesis by (simp add: reencode_encode_def Let_def)
  next
    case (Inr u)
    show ?thesis
    proof (cases "file_size_percent (files w1) ?temp in_file")
      case (Inl e)
      with run f inv1 Inr show ?thesis by (simp add: reencode_encode_def Let_def)
    next
      case pct: (Inr percent)
      show ?thesis
      proof (cases "\<not> force \<and> 100 \<le> percent")
        case False
        with run f Inr pct
        have "copy_and_return w1 ?temp out_file = (r, w')"
          by (auto simp add: reencode_encode_def Let_def)
        from copy_and_return_frame(1) [OF this] have "rows w' = rows w1" by (rule rows_eq_of_db)
        with inv1 show ?thesis by (simp add: rows_nonzero_def)
      next
        case True
        show ?thesis
        proof (cases "file_size (files w1) ?temp")
          case (Inl e)
          with run f inv1 Inr pct True show ?thesis by (simp add: reencode_encode_def Let_def)
        next
          case ob: (Inr out_bytes)
          then obtain n1 where n1: "stat (files w1) ?temp = Some n1" "out_bytes = st_size n1"
            by (auto simp: file_size_def split: option.splits)
          have nz: "int out_bytes \<noteq> 0"
          proof
            assume "int out_bytes = 0"
            with n1 have "st_size n1 = 0" by simp
            from file_size_percent_of_empty [OF pct n1(1) this] True show False by simp
          qed
          obtain r2 w2 where i: "insert_row ev w1 in_file crf preset (int out_bytes) = (r2, w2)"
            by (cases "insert_row ev w1 in_file crf preset (int out_bytes)")
          with run f Inr pct True ob have "w' = w2"
            by (auto simp add: reencode_encode_def Let_def split: sum.splits)
          with insert_row_nonzero [OF inv1 nz i] show ?thesis by simp
        qed
      qed
    qed
  qed
qed

lemma reencode_with_nonzero:
  assumes inv: "rows_nonzero w"
    and run: "reencode_with ev w in_file out_file crf preset force extra_args dont_copy enc aenc = (r, w')"
  shows "rows_nonzero w'"
proof -
  define w1 where "w1 = (init_db w)\<lparr>files := mkdtemp (files w) (tmp_dir ev)\<rparr>"
  have inv1: "rows_nonzero w1" using inv by (simp add: w1_def rows_nonzero_def)
  show ?thesis
  proof (cases force)
    case True
    obtain r2 w2 where e: "reencode_encode ev w1 in_file out_file crf preset force extra_args enc aenc = (r2, w2)"
      by (cases "reencode_encode ev w1 in_file out_file crf preset force extra_args enc aenc")
    with run True have "w' = w2\<lparr>files := rmtree (files w2) (tmp_dir ev)\<rparr>"
      by (simp add: reencode_with_def Let_def w1_def [symmetric])
    with reencode_encode_nonzero [OF inv1 e] show ?thesis by (simp add: rows_nonzero_def)
  next
    case False
    obtain rc wc where c: "check ev w1 in_file crf preset = (rc, wc)"
      by (cases "check ev w1 in_file crf preset")
    have "rows wc = rows w1" using check_frame(1) [OF c] by (rule rows_eq_of_db)
    with inv1 have invc: "rows_nonzero wc" by (simp add: rows_nonzero_def)
    show ?thesis
    proof (cases rc)
      case (Inl e)
      with run False c have "w' = wc\<lparr>files := rmtree (files wc) (tmp_dir ev)\<rparr>"
        by (simp add: reencode_with_def Let_def w1_def [symmetric])
      with invc show ?thesis by (simp add: rows_nonzero_def)
    next
      case (Inr prev_result)
      show ?thesis
      proof (cases "truthy prev_result")
        case t: True
        show ?thesis
        proof (cases dont_copy)
          case True
          with run False c Inr t have "w' = wc\<lparr>files := rmtree (files wc) (tmp_dir ev)\<rparr>"
            by (simp add: reencode_with_def Let_def w1_def [symmetric])
          with invc show ?thesis by (simp add: rows_nonzero_def)
        next
          case dc: False
          obtain r2 w2 where cr: "copy_and_return wc in_file out_file = (r2, w2)"
            by (cases "copy_and_return wc in_file out_file")
          with run False c Inr t dc have "w' = w2\<lparr>files := rmtree (files w2) (tmp_dir ev)\<rparr>"
            by (simp add: reencode_with_def Let_def w1_def [symmetric])
          moreover from copy_and_return_frame(1) [OF cr] have "rows w2 = rows wc"
            by (rule rows_eq_of_db)
          ultimately show ?thesis using invc by (simp add: rows_nonzero_def)
        qed
      next
        case f: False
        obtain r2 w2 where e: "reencode_encode ev wc in_file out_file crf preset force extra_args enc aenc = (r2, w2)"
          by (cases "reencode_encode ev wc in_file out_file crf preset force extra_args enc aenc")
        with run False c Inr f have "w' = w2\<lparr>files := rmtree (files w2) (tmp_dir ev)\<rparr>"
          by (simp add: reencode_with_def Let_def w1_def [symmetric])
        with reencode_encode_nonzero [OF invc e] show ?thesis by (simp add: rows_nonzero_def)
      qed
    qed
  qed
qed

lemma reencode_nonzero:
  assumes inv: "rows_nonzero w"
    and run: "reencode ev w in_file out_file crf preset force extra_args dont_copy = (r, w')"
  shows "rows_nonzero w'"
  using run
proof (cases rule: reencode_cases)
  case (failed e)
  with inv show ?thesis by simp
next
  case (no_action c a d)
  with inv show ?thesis by simp
next
  case (duplicate c a d)
  from copy_and_return_frame(1) [OF duplicate(9)] have "rows w' = rows w" by (rule rows_eq_of_db)
  with inv show ?thesis by (simp add: rows_nonzero_def)
next
  case (encode c a d)
  from reencode_with_nonzero [OF inv encode(6)] show ?thesis .
qed

lemma new_ledger_nonzero: "db w = None \<Longrightarrow> rows_nonzero w"
  by (simp add: rows_nonzero_def rows_def)


section \<open>Ledger hits\<close>

lemma reencode_with_hit:
  assumes reg: "names (files w) in_file = Some (File n)" "\<not> is_dir n"
    and hit: "rows w (sha1 ev (content n), crf, preset) = Some v" "v \<noteq> 0"
    and run: "reencode_with ev w in_file out crf preset False extra_args dont_copy enc aenc = (r, w')"
  shows "encoder_runs w' = encoder_runs w \<and>
    (\<forall>x. r = Inr x \<longrightarrow> x = (if dont_copy then None else Some out)) \<and>
    (\<not> in_tree (tmp_dir ev) in_file \<longrightarrow> \<not> in_tree (tmp_dir ev) out \<longrightarrow>
         names (files w) out = None \<longrightarrow>
           r = Inr (if dont_copy then None else Some out) \<and>
           (\<not> dont_copy \<longrightarrow> (\<exists>m. names (files w') out = Some (File m) \<and> content m = content n)))"
proof -
  define w1 where "w1 = (init_db w)\<lparr>files := mkdtemp (files w) (tmp_dir ev)\<rparr>"
  have f1: "files w1 = mkdtemp (files w) (tmp_dir ev)" by (simp add: w1_def)
  have t1: "trace w1 = trace w" by (simp add: w1_def)
  have d1: "db w1 = Some (rows w)" by (simp add: w1_def)
  obtain rc wc where c: "check ev w1 in_file crf preset = (rc, wc)"
    by (cases "check ev w1 in_file crf preset")
  note cf = check_frame [OF c]
  have erc: "encoder_runs wc = encoder_runs w"
    using cf(3) t1 by (simp add: encoder_runs_def)
  define body where "body = (case rc of
                       Inl e \<Rightarrow> (Inl e, wc)
                     | Inr prev_result \<Rightarrow>
                         (if truthy prev_result then
                            (if dont_copy then (Inr None, wc)
                             else copy_and_return wc in_file out)
                          else reencode_encode ev wc in_file out crf preset False extra_args
                                 enc aenc))"
  obtain r2 w2 where b: "body = (r2, w2)" by (cases body)
  from run have "(r, w') = (r2, w2\<lparr>files := rmtree (files w2) (tmp_dir ev)\<rparr>)"
    unfolding reencode_with_unfold
    by (simp add: Let_def w1_def [symmetric] c body_def [symmetric] b)
  then have r: "r = r2" and w': "w' = w2\<lparr>files := rmtree (files w2) (tmp_dir ev)\<rparr>"
    by simp_all
  have tw: "trace w' = trace w2" using w' by simp
  show ?thesis
  proof (cases "tmp_dir ev = in_file")
    case True
    have "hash_file ev (files w1) in_file = Inl OSError"
      unfolding f1 True [symmetric] by (rule hash_file_dir [OF names_mkdtemp_self]) simp
    with c have "rc = Inl OSError" and "wc = w1" by (simp_all add: check_def)
    with b have "r2 = Inl OSError" and "w2 = w1" by (simp_all add: body_def)
    with r tw t1 True show ?thesis by (simp add: encoder_runs_def)
  next
    case False
    then have n1: "names (files w1) in_file = Some (File n)"
      using reg(1) by (simp add: f1 names_mkdtemp)
    have h1: "hash_file ev (files w1) in_file = Inr (sha1 ev (content n))"
      using hash_file_reg [OF n1 reg(2)] .
    from check_hit [OF h1 d1, of crf preset] c hit(1) have rc: "rc = Inr (Some v)" by simp
    have tv: "truthy (Some v)" using hit(2) by (simp add: truthy_def)
    have nc: "names (files wc) in_file = Some (File n)" using n1 cf(2) by simp
    show ?thesis
    proof (cases dont_copy)
      case True
      with b rc tv have "r2 = Inr None" and "w2 = wc" by (simp_all add: body_def)
      with r tw True erc show ?thesis by (simp add: encoder_runs_def)
    next
      case dc: False
      with b rc tv have cr: "copy_and_return wc in_file out = (r2, w2)" by (simp add: body_def)
      have e: "encoder_runs w' = encoder_runs w"
        using copy_and_return_frame(2) [OF cr] erc tw by (simp add: encoder_runs_def)
      have x: "\<forall>x. r = Inr x \<longrightarrow> x = Some out"
      proof (intro allI impI)
        fix x assume "r = Inr x"
        with cr r have "copy_and_return wc in_file out = (Inr x, w2)" by simp
        from copy_and_return_result(1) [OF nc this] show "x = Some out" .
      qed
      have ok: "\<not> in_tree (tmp_dir ev) out \<longrightarrow> names (files w) out = None \<longrightarrow>
           r = Inr (Some out) \<and> (\<exists>m. names (files w') out = Some (File m) \<and> content m = content n)"
      proof (intro impI)
        assume nt: "\<not> in_tree (tmp_dir ev) out" and ab: "names (files w) out = None"
        from nt have "out \<noteq> tmp_dir ev" by auto
        with ab have "names (files wc) out = None"
          using cf(2) by (simp add: f1 names_mkdtemp)
        from copy_and_return_ok [OF nc reg(2) this] cr
        have r2: "r2 = Inr (Some out)" by auto
        with cr have "copy_and_return wc in_file out = (Inr (Some out), w2)" by simp
        from copy_and_return_result(2) [OF nc this] obtain m
          where m: "names (files w2) out = Some (File m)" "content m = content n" by blast
        have "names (files w') out = names (files w2) out"
          using w' nt by (simp add: names_rmtree)
        with m r r2
        show "r = Inr (Some out) \<and> (\<exists>m. names (files w') out = Some (File m) \<and> content m = content n)"
          by simp
      qed
      show ?thesis
      proof (intro conjI)
        show "encoder_runs w' = encoder_runs w" by (rule e)
        show "\<forall>x. r = Inr x \<longrightarrow> x = (if dont_copy then None else Some out)"
          using x dc by simp
        show "\<not> in_tree (tmp_dir ev) in_file \<longrightarrow> \<not> in_tree (tmp_dir ev) out \<longrightarrow>
         names (files w) out = None \<longrightarrow>
           r = Inr (if dont_copy then None else Some out) \<and>
           (\<not> dont_copy \<longrightarrow> (\<exists>m. names (files w') out = Some (File m) \<and> content m = content n))"
          using ok dc by simp
      qed
    qed
  qed
qed

lemma reencode_hit:
  assumes "hash_file ev (files w) in_file = Inr h"
    and "rows w (h, crf, preset) = Some v" and "v \<noteq> 0"
    and "reencode ev w in_file out_file crf preset False extra_args dont_copy = (r, w')"
  shows "fst (check ev w in_file crf preset) = Inr (Some v) \<and>
    encoder_runs w' = encoder_runs w \<and>
    (\<forall>x. r = Inr x \<longrightarrow> x = (if dont_copy then None else Some (final_out_file out_file))) \<and>
    (path_isfile (files w) in_file \<and> \<not> path_islink (files w) in_file \<and>
     (\<exists>c a d. probe ev in_file = Inr (c, a, d)) \<and>
     names (files w) (final_out_file out_file) = None \<and>
     \<not> in_tree (tmp_dir ev) in_file \<and> \<not> in_tree (tmp_dir ev) (final_out_file out_file) \<longrightarrow>
       r = Inr (if dont_copy then None else Some (final_out_file out_file)) \<and>
       (\<not> dont_copy \<longrightarrow>
          (\<exists>n m. names (files w) in_file = Some (File n) \<and>
                 names (files w') (final_out_file out_file) = Some (File m) \<and>
                 content m = content n)))"
proof -
  let ?out = "final_out_file out_file"
  from assms(2) obtain t where t: "db w = Some t" "t (h, crf, preset) = Some v"
    by (auto simp: rows_def split: option.splits)
  from check_hit [OF assms(1) t(1), of crf preset] t(2)
  have lookup: "fst (check ev w in_file crf preset) = Inr (Some v)" by simp
  have rest: "encoder_runs w' = encoder_runs w \<and>
    (\<forall>x. r = Inr x \<longrightarrow> x = (if dont_copy then None else Some ?out)) \<and>
    (path_isfile (files w) in_file \<and> \<not> path_islink (files w) in_file \<and>
     (\<exists>c a d. probe ev in_file = Inr (c, a, d)) \<and>
     names (files w) ?out = None \<and>
     \<not> in_tree (tmp_dir ev) in_file \<and> \<not> in_tree (tmp_dir ev) ?out \<longrightarrow>
       r = Inr (if dont_copy then None else Some ?out) \<and>
       (\<not> dont_copy \<longrightarrow>
          (\<exists>n m. names (files w) in_file = Some (File n) \<and>
                 names (files w') ?out = Some (File m) \<and> content m = content n)))"
    using assms(4)
  proof (cases rule: reencode_cases)
    case (failed e)
    have "names (files w) ?out = None \<Longrightarrow> \<not> path_exists (files w) ?out"
      by (simp add: path_exists_def stat_absent)
    with failed(3)
    have "\<not> (path_isfile (files w) in_file \<and> \<not> path_islink (files w) in_file \<and>
     (\<exists>c a d. probe ev in_file = Inr (c, a, d)) \<and>
     names (files w) ?out = None \<and>
     \<not> in_tree (tmp_dir ev) in_file \<and> \<not> in_tree (tmp_dir ev) ?out)"
      by fastforce
    with failed(1,2) show ?thesis by simp
  next
    case (no_action codec a d)
    then show ?thesis by simp
  next
    case (duplicate codec a d)
    from not_link_file [OF duplicate(1,2)] obtain n
      where n: "names (files w) in_file = Some (File n)" "\<not> is_dir n" by blast
    note cr = duplicate(9)
    have tr: "encoder_runs w' = encoder_runs w"
      using copy_and_return_frame(2) [OF cr] by (rule encoder_runs_eq_of_trace)
    have res: "\<forall>x. r = Inr x \<longrightarrow> x = Some ?out"
    proof (intro allI impI)
      fix x assume "r = Inr x"
      with cr have c: "copy_and_return w in_file ?out = (Inr x, w')" by simp
      from copy_and_return_result(1) [OF n(1) c] show "x = Some ?out" .
    qed
    have ok: "names (files w) ?out = None \<longrightarrow>
        r = Inr (Some ?out) \<and>
        (\<exists>n m. names (files w) in_file = Some (File n) \<and>
               names (files w') ?out = Some (File m) \<and> content m = content n)"
    proof
      assume "names (files w) ?out = None"
      from copy_and_return_ok [OF n this] cr have r: "r = Inr (Some ?out)" by auto
      with cr have "copy_and_return w in_file ?out = (Inr (Some ?out), w')" by simp
      from copy_and_return_result(2) [OF n(1) this] n(1) r
      show "r = Inr (Some ?out) \<and>
        (\<exists>n m. names (files w) in_file = Some (File n) \<and>
               names (files w') ?out = Some (File m) \<and> content m = content n)" by blast
    qed
    have ifeq: "(if dont_copy then None else Some ?out) = Some ?out"
      using duplicate(8) by simp
    show ?thesis unfolding ifeq using tr res ok by blast
  next
    case (encode codec a d)
    from not_link_file [OF encode(1,2)] obtain n
      where n: "names (files w) in_file = Some (File n)" "\<not> is_dir n" by blast
    from hash_file_reg [OF n] assms(1) have h: "h = sha1 ev (content n)" by simp
    note hitl = reencode_with_hit [OF n assms(2) [unfolded h] assms(3) encode(6)]
    from hitl have p1: "encoder_runs w' = encoder_runs w"
      and p2: "\<forall>x. r = Inr x \<longrightarrow> x = (if dont_copy then None else Some ?out)"
      and p3: "\<not> in_tree (tmp_dir ev) in_file \<longrightarrow> \<not> in_tree (tmp_dir ev) ?out \<longrightarrow>
         names (files w) ?out = None \<longrightarrow>
           r = Inr (if dont_copy then None else Some ?out) \<and>
           (\<not> dont_copy \<longrightarrow> (\<exists>m. names (files w') ?out = Some (File m) \<and> content m = content n))"
      by blast+
    have p3': "names (files w) ?out = None \<and>
       \<not> in_tree (tmp_dir ev) in_file \<and> \<not> in_tree (tmp_dir ev) ?out \<longrightarrow>
       r = Inr (if dont_copy then None else Some ?out) \<and>
       (\<not> dont_copy \<longrightarrow>
          (\<exists>n m. names (files w) in_file = Some (File n) \<and>
                 names (files w') ?out = Some (File m) \<and> content m = content n))"
      using p3 n(1) by blast
    from p1 p2 p3' show ?thesis by blast
  qed
  from lookup rest show ?thesis by blast
qed

text \<open>
  C1. When the ledger has a row for the hash of the input, the crf and the preset,
  \<open>check\<close> returns the recorded count and \<open>reencode\<close> without \<open>force\<close> never
  runs the encoder. Whenever it returns, it returns the no-action signal (\<open>dont_copy\<close>)
  or the output path; and when the checks on the input pass, nothing is at the output
  path and both paths lie outside the scratch directory, it does return, and the output
  path holds the bytes of the input. The ledger is one that \<open>reencode\<close> has written:
  it records no size of 0 bytes (\<open>reencode_nonzero\<close>, \<open>new_ledger_nonzero\<close>).
\<close>

theorem ledger_hit_never_encodes:
  assumes "rows_nonzero w"
    and "hash_file ev (files w) in_file = Inr h"
    and "rows w (h, crf, preset) = Some v"
    and "reencode ev w in_file out_file crf preset False extra_args dont_copy = (r, w')"
  shows "fst (check ev w in_file crf preset) = Inr (Some v) \<and>
    encoder_runs w' = encoder_runs w \<and>
    (\<forall>x. r = Inr x \<longrightarrow> x = (if dont_copy then None else Some (final_out_file out_file))) \<and>
    (path_isfile (files w) in_file \<and> \<not> path_islink (files w) in_file \<and>
     (\<exists>c a d. probe ev in_file = Inr (c, a, d)) \<and>
     names (files w) (final_out_file out_file) = None \<and>
     \<not> in_tree (tmp_dir ev) in_file \<and> \<not> in_tree (tmp_dir ev) (final_out_file out_file) \<longrightarrow>
       r = Inr (if dont_copy then None else Some (final_out_file out_file)) \<and>
       (\<not> dont_copy \<longrightarrow>
          (\<exists>n m. names (files w) in_file = Some (File n) \<and>
                 names (files w') (final_out_file out_file) = Some (File m) \<and>
                 content m = content n)))"
proof -
  from assms(1,3) have "v \<noteq> 0" by (auto simp: rows_nonzero_def)
  from reencode_hit [OF assms(2,3) this assms(4)] show ?thesis .
qed

theorem ledger_hit_never_encodes_witness:
  "rows_nonzero ledger_world \<and>
   hash_file example_env (files ledger_world) ''in.mkv'' = Inr (replicate 20 CHR ''x'') \<and>
   rows ledger_world (replicate 20 CHR ''x'', 23, ''fast'') = Some 1050000 \<and>
   path_isfile (files ledger_world) ''in.mkv'' \<and> \<not> path_islink (files ledger_world) ''in.mkv'' \<and>
   probe example_env ''in.mkv'' = Inr (''h264'', Some ''aac'', 60) \<and>
   names (files ledger_world) (final_out_file ''out.mp4'') = None \<and>
   \<not> in_tree (tmp_dir example_env) ''in.mkv'' \<and>
   \<not> in_tree (tmp_dir example_env) (final_out_file ''out.mp4'') \<and>
   fst (check example_env ledger_world ''in.mkv'' 23 ''fast'') = Inr (Some 1050000) \<and>
   encoder_runs (snd (reencode example_env ledger_world ''in.mkv'' ''out.mp4'' 23 ''fast'' False [] False))
     = encoder_runs ledger_world \<and>
   fst (reencode example_env ledger_world ''in.mkv'' ''out.mp4'' 23 ''fast'' False [] False)
     = Inr (Some ''out.mp4'') \<and>
   (\<exists>n m. names (files ledger_world) ''in.mkv'' = Some (File n) \<and>
      names (files (snd (reencode example_env ledger_world ''in.mkv'' ''out.mp4'' 23 ''fast'' False [] False)))
        ''out.mp4'' = Some (File m) \<and>
      content m = content n)"
proof -
  let ?R = "reencode example_env ledger_world ''in.mkv'' ''out.mp4'' 23 ''fast'' False [] False"
  have eq: "?R = (fst ?R, snd ?R)" by simp
  have h: "hash_file example_env (files ledger_world) ''in.mkv'' = Inr (replicate 20 CHR ''x'')"
    by (simp add: example_hash)
  have r: "rows ledger_world (replicate 20 CHR ''x'', 23, ''fast'') = Some 1050000"
    by (simp add: rows_def ledger_world_def)
  have pre: "path_isfile (files ledger_world) ''in.mkv'' \<and> \<not> path_islink (files ledger_world) ''in.mkv'' \<and>
     (\<exists>c a d. probe example_env ''in.mkv'' = Inr (c, a, d)) \<and>
     names (files ledger_world) (final_out_file ''out.mp4'') = None \<and>
     \<not> in_tree (tmp_dir example_env) ''in.mkv'' \<and>
     \<not> in_tree (tmp_dir example_env) (final_out_file ''out.mp4'')"
    using example_outside by (simp add: example_checks example_out_plain example_probe)
  note inst = ledger_hit_never_encodes [OF ledger_world_nonzero h r eq]
  from inst have a: "fst (check example_env ledger_world ''in.mkv'' 23 ''fast'') = Inr (Some 1050000)"
    and b: "encoder_runs (snd ?R) = encoder_runs ledger_world" by blast+
  from inst pre have "fst ?R = Inr (if False then None else Some (final_out_file ''out.mp4'')) \<and>
       (\<not> False \<longrightarrow>
          (\<exists>n m. names (files ledger_world) ''in.mkv'' = Some (File n) \<and>
                 names (files (snd ?R)) (final_out_file ''out.mp4'') = Some (File m) \<and>
                 content m = content n))"
    by blast
  then have c: "fst ?R = Inr (Some ''out.mp4'')"
    and d: "\<exists>n m. names (files ledger_world) ''in.mkv'' = Some (File n) \<and>
                 names (files (snd ?R)) ''out.mp4'' = Some (File m) \<and> content m = content n"
    by (simp_all add: example_checks)
  from pre have pre': "path_isfile (files ledger_world) ''in.mkv''"
    "\<not> path_islink (files ledger_world) ''in.mkv''"
    "names (files ledger_world) (final_out_file ''out.mp4'') = None"
    "\<not> in_tree (tmp_dir example_env) ''in.mkv''"
    "\<not> in_tree (tmp_dir example_env) (final_out_file ''out.mp4'')"
    by blast+
  from ledger_world_nonzero h r pre' example_probe a b c d show ?thesis by simp
qed


section \<open>Size regressions\<close>

lemma reencode_encode_regression:
  assumes reg: "names (files w) in_file = Some (File n)" "\<not> is_dir n"
    and tmp: "names (files w) temp = None"
    and temp: "temp = path_join (tmp_dir ev) (basename out)"
    and cmd: "cmd = [''ffmpeg'', ''-n'', ''-nostdin'', ''-hide_banner''] @ extra_args @
                [''-i'', in_file, ''-c:a'', aenc, ''-c:v'', enc,
                 ''-crf'', str_int crf, ''-preset'', preset, temp]"
    and tool: "ffmpeg_tool ev cmd = Some data"
    and ne: "st_size n \<noteq> 0"
    and pct: "100 \<le> percent_of_sizes (length data) (st_size n)"
    and dbt: "db w = Some t"
    and key: "key = (sha1 ev (content n), crf, preset)"
    and w1: "w1 = (log_event (RunFfmpeg cmd) w)\<lparr>files := create_file (files w) temp data\<rparr>"
  shows "reencode_encode ev w in_file out crf preset False extra_args enc aenc =
     (if t key \<noteq> None
      then (Inl IntegrityError, log_event (DbInsert key (int (length data))) w1)
      else (Inl ErrorCalled, (log_event (DbInsert key (int (length data))) w1)
                               \<lparr>db := Some (t(key \<mapsto> int (length data)))\<rparr>))"
proof -
  let ?args = "extra_args @ [''-i'', in_file, ''-c:a'', aenc, ''-c:v'', enc,
                 ''-crf'', str_int crf, ''-preset'', preset]"
  have split: "extra_args @ [''-i'', in_file, ''-c:a'', aenc, ''-c:v'', enc,
                 ''-crf'', str_int crf, ''-preset'', preset, temp] = ?args @ [temp]"
    by simp
  have tool': "ffmpeg_tool ev ([''ffmpeg'', ''-n'', ''-nostdin'', ''-hide_banner''] @ ?args @ [temp]) = Some data"
    using tool cmd by simp
  have "ffmpeg ev w (?args @ [temp]) = (Inr (), w1)"
    using ffmpeg_ok [OF tool' tmp] cmd w1 by simp
  then have f: "ffmpeg ev w (extra_args @ [''-i'', in_file, ''-c:a'', aenc, ''-c:v'', enc,
                 ''-crf'', str_int crf, ''-preset'', preset, temp]) = (Inr (), w1)"
    by simp
  have neq: "in_file \<noteq> temp" using reg(1) tmp by auto
  have fw1: "files w1 = create_file (files w) temp data" by (simp add: w1 log_event_def)
  have n_in: "names (files w1) in_file = Some (File n)"
    using reg(1) neq by (simp add: fw1 names_create_file)
  have n_tmp: "names (files w1) temp =
      Some (File \<lparr>st_ino = next_ino (files w), is_dir = False, st_dev = mount (files w) temp,
                  content = data\<rparr>)"
    by (simp add: fw1 names_create_file)
  have sz: "st_size \<lparr>st_ino = next_ino (files w), is_dir = False, st_dev = mount (files w) temp,
                  content = data\<rparr> = length data"
    by (simp add: st_size_def)
  have p: "file_size_percent (files w1) temp in_file = Inr (percent_of_sizes (length data) (st_size n))"
    using file_size_percent_eq [OF stat_file [OF n_tmp] stat_file [OF n_in] ne] sz by simp
  have fsz: "file_size (files w1) temp = Inr (length data)"
    using file_size_eq [OF stat_file [OF n_tmp]] sz by simp
  have h: "hash_file ev (files w1) in_file = Inr (sha1 ev (content n))"
    using n_in reg(2) by (simp add: hash_file_def stat_file)
  have d1: "db w1 = Some t" using dbt by (simp add: w1 log_event_def)
  note ins = insert_row_eval [OF h d1, of crf preset "int (length data)"]
  show ?thesis
    unfolding reencode_encode_def Let_def temp [symmetric]
    by (simp add: f p pct fsz ins key)
qed

lemma reencode_with_regression:
  assumes reg: "names (files w) in_file = Some (File n)" "\<not> is_dir n"
    and outside: "\<not> in_tree (tmp_dir ev) in_file"
    and temp: "temp = path_join (tmp_dir ev) (basename out)"
    and tmp: "names (files w) temp = None" "temp \<noteq> tmp_dir ev"
    and cmd: "cmd = [''ffmpeg'', ''-n'', ''-nostdin'', ''-hide_banner''] @ extra_args @
                [''-i'', in_file, ''-c:a'', aenc, ''-c:v'', enc,
                 ''-crf'', str_int crf, ''-preset'', preset, temp]"
    and tool: "ffmpeg_tool ev cmd = Some data"
    and ne: "st_size n \<noteq> 0"
    and pct: "100 \<le> percent_of_sizes (length data) (st_size n)"
    and key: "key = (sha1 ev (content n), crf, preset)"
    and falsy: "\<not> truthy (rows w key)"
    and run: "reencode_with ev w in_file out crf preset False extra_args dont_copy enc aenc = (r, w')"
  shows "r = (if rows w key = None then Inl ErrorCalled else Inl IntegrityError)"
    and "rows w' = (if rows w key = None then (rows w)(key \<mapsto> int (length data)) else rows w)"
    and "trace w' = trace w @ [DbCheck key, RunFfmpeg cmd, DbInsert key (int (length data))]"
proof -
  define w1 where "w1 = (init_db w)\<lparr>files := mkdtemp (files w) (tmp_dir ev)\<rparr>"
  have f1: "files w1 = mkdtemp (files w) (tmp_dir ev)" by (simp add: w1_def)
  have t1: "trace w1 = trace w" by (simp add: w1_def)
  have d1: "db w1 = Some (rows w)" by (simp add: w1_def)
  from outside have neq: "in_file \<noteq> tmp_dir ev" by auto
  have n1: "names (files w1) in_file = Some (File n)"
    using reg(1) neq by (simp add: f1 names_mkdtemp)
  have h1: "hash_file ev (files w1) in_file = Inr (sha1 ev (content n))"
    using hash_file_reg [OF n1 reg(2)] .
  define wc where "wc = log_event (DbCheck key) w1"
  have c: "check ev w1 in_file crf preset = (Inr (rows w key), wc)"
    using check_hit [OF h1 d1, of crf preset] by (simp add: key wc_def)
  have fc: "files wc = files w1" and dc: "db wc = Some (rows w)"
    and tc: "trace wc = trace w @ [DbCheck key]"
    using d1 t1 by (simp_all add: wc_def log_event_def)
  have nc: "names (files wc) in_file = Some (File n)" using n1 fc by simp
  have tmpc: "names (files wc) temp = None"
    using tmp by (simp add: fc f1 names_mkdtemp)
  define w2 where "w2 = (log_event (RunFfmpeg cmd) wc)\<lparr>files := create_file (files wc) temp data\<rparr>"
  define w3 where "w3 = log_event (DbInsert key (int (length data))) w2"
  note enc = reencode_encode_regression [OF nc reg(2) tmpc temp cmd tool ne pct dc key w2_def,
      folded w3_def]
  have t3: "trace w3 = trace w @ [DbCheck key, RunFfmpeg cmd, DbInsert key (int (length data))]"
    using tc by (simp add: w3_def w2_def log_event_def)
  have d3: "db w3 = Some (rows w)" using dc by (simp add: w3_def w2_def log_event_def)
  define res :: "(error + path option) \<times> world"
    where "res = (if rows w key \<noteq> None then (Inl IntegrityError, w3)
      else (Inl ErrorCalled, w3\<lparr>db := Some ((rows w)(key \<mapsto> int (length data)))\<rparr>))"
  have e: "reencode_encode ev wc in_file out crf preset False extra_args enc aenc = res"
    using enc by (simp add: res_def)
  from run have "(r, w') = (fst res, (snd res)\<lparr>files := rmtree (files (snd res)) (tmp_dir ev)\<rparr>)"
    unfolding reencode_with_unfold
    by (simp add: Let_def w1_def [symmetric] c falsy e split: prod.splits)
  then have r: "r = fst res" and w': "w' = (snd res)\<lparr>files := rmtree (files (snd res)) (tmp_dir ev)\<rparr>"
    by simp_all
  from r show "r = (if rows w key = None then Inl ErrorCalled else Inl IntegrityError)"
    by (simp add: res_def)
  from w' d3 show "rows w' = (if rows w key = None then (rows w)(key \<mapsto> int (length data)) else rows w)"
    by (simp add: res_def rows_def)
  from w' t3 show "trace w' = trace w @ [DbCheck key, RunFfmpeg cmd, DbInsert key (int (length data))]"
    by (simp add: res_def)
qed

lemma reencode_regression:
  assumes chk: "path_isfile (files w) in_file" "\<not> path_islink (files w) in_file"
      "\<not> path_exists (files w) (final_out_file out_file)"
    and pr: "probe ev in_file = Inr (codec, acodec, duration)"
    and need: "\<not> (codec = ''hevc'' \<and> (acodec = Some ''aac'' \<or> acodec = None))"
    and st: "stat (files w) in_file = Some n"
    and ne: "st_size n \<noteq> 0"
    and outside: "\<not> in_tree (tmp_dir ev) in_file"
    and tmp: "names (files w) (scratch_path ev out_file) = None"
      "scratch_path ev out_file \<noteq> tmp_dir ev"
    and tool: "ffmpeg_tool ev (encoder_command ev in_file out_file crf preset extra_args codec acodec)
                 = Some data"
    and pct: "100 \<le> percent_of_sizes (length data) (st_size n)"
    and key: "key = (sha1 ev (content n), crf, preset)"
    and falsy: "\<not> truthy (rows w key)"
    and run: "reencode ev w in_file out_file crf preset False extra_args dont_copy = (r, w')"
  shows "r = (if rows w key = None then Inl ErrorCalled else Inl IntegrityError)"
    and "rows w' = (if rows w key = None then (rows w)(key \<mapsto> int (length data)) else rows w)"
    and "trace w' = trace w @
           [DbCheck key,
            RunFfmpeg (encoder_command ev in_file out_file crf preset extra_args codec acodec),
            DbInsert key (int (length data))]"
proof -
  from not_link_file [OF chk(1,2)] st obtain reg:
    "names (files w) in_file = Some (File n)" "\<not> is_dir n"
    by (auto simp: stat_file)
  have w: "reencode_with ev w in_file (final_out_file out_file) crf preset False extra_args
             dont_copy (if codec = ''hevc'' then ''copy'' else ''libx265'')
             (if acodec = Some ''aac'' \<or> acodec = None then ''copy'' else ''aac'') = (r, w')"
    using run
  proof (cases rule: reencode_cases)
    case (failed e)
    with chk pr show ?thesis by simp
  next
    case (no_action c a d)
    with pr need show ?thesis by simp
  next
    case (duplicate c a d)
    with pr need show ?thesis by simp
  next
    case (encode c a d)
    with pr show ?thesis by simp
  qed
  let ?cmd = "encoder_command ev in_file out_file crf preset extra_args codec acodec"
  have t: "scratch_path ev out_file = path_join (tmp_dir ev) (basename (final_out_file out_file))"
    by (simp add: scratch_path_def)
  have c: "?cmd = [''ffmpeg'', ''-n'', ''-nostdin'', ''-hide_banner''] @ extra_args @
                [''-i'', in_file,
                 ''-c:a'', (if acodec = Some ''aac'' \<or> acodec = None then ''copy'' else ''aac''),
                 ''-c:v'', (if codec = ''hevc'' then ''copy'' else ''libx265''),
                 ''-crf'', str_int crf, ''-preset'', preset, scratch_path ev out_file]"
    by (simp add: encoder_command_def)
  note rw = reencode_with_regression [OF reg outside t tmp c tool ne pct key falsy w]
  show "r = (if rows w key = None then Inl ErrorCalled else Inl IntegrityError)"
    and "rows w' = (if rows w key = None then (rows w)(key \<mapsto> int (length data)) else rows w)"
    and "trace w' = trace w @
           [DbCheck key,
            RunFfmpeg (encoder_command ev in_file out_file crf preset extra_args codec acodec),
            DbInsert key (int (length data))]"
    using rw by simp_all
qed

text \<open>
  The ledger of \<open>ledger_world\<close> is the one that a first run on \<open>example_world\<close>
  writes: a run on \<open>ledger_world\<close> is a second invocation on the same input.
\<close>

lemma ledger_world_is_written:
  "rows (snd (reencode example_env example_world ''in.mkv'' ''out.mp4'' 23 ''fast'' False [] False))
     = rows ledger_world"
proof -
  let ?n = "\<lparr>st_ino = 2, is_dir = False, st_dev = 0, content = replicate 1000000 CHR ''x''\<rparr>"
  let ?R = "reencode example_env example_world ''in.mkv'' ''out.mp4'' 23 ''fast'' False [] False"
  have eq: "?R = (fst ?R, snd ?R)" by simp
  have chk: "path_isfile (files example_world) ''in.mkv''"
    "\<not> path_islink (files example_world) ''in.mkv''"
    "\<not> path_exists (files example_world) (final_out_file ''out.mp4'')"
    by (simp_all add: example_checks)
  have need: "\<not> (''h264'' = ''hevc'' \<and> (Some ''aac'' = Some ''aac'' \<or> Some ''aac'' = None))"
    by simp
  have st: "stat (files example_world) ''in.mkv'' = Some ?n" by (simp add: example_stat)
  have ne: "st_size ?n \<noteq> 0" by (simp add: example_size)
  have tmp: "names (files example_world) (scratch_path example_env ''out.mp4'') = None"
    by (simp add: example_scratch_free)
  have pct: "100 \<le> percent_of_sizes (length (replicate 1050000 CHR ''y'')) (st_size ?n)"
    by (simp only: example_size example_pct)
  have key: "(replicate 20 CHR ''x'', 23::int, ''fast'') = (sha1 example_env (content ?n), 23, ''fast'')"
    by (simp add: example_sha1)
  have falsy: "\<not> truthy (rows example_world (replicate 20 CHR ''x'', 23, ''fast''))"
    by (simp add: example_world_rows truthy_def)
  note rr = reencode_regression [OF chk example_probe need st ne example_outside(1) tmp
      scratch_path_differs example_tool pct key falsy eq]
  have "rows example_world = Map.empty"
    by (rule ext) (simp add: example_world_rows)
  with rr(2) have "rows (snd ?R) = [(replicate 20 CHR ''x'', 23, ''fast'') \<mapsto> 1050000]"
    by (simp add: example_world_rows)
  moreover have "rows ledger_world = [(replicate 20 CHR ''x'', 23, ''fast'') \<mapsto> 1050000]"
    by (simp add: rows_def ledger_world_def)
  ultimately show ?thesis by simp
qed

lemma encoder_runs_regression:
  assumes "trace w' = trace w @ [DbCheck key, RunFfmpeg cmd, DbInsert key v]"
  shows "encoder_runs w' \<noteq> encoder_runs w"
  using assms by (simp add: encoder_runs_def)

text \<open>
  C2. \<open>file_size_percent\<close> returns \<open>100 * s1 / s2\<close> rounded to one decimal: the float
  of a number of tenths that lies within half a tenth of the quotient. It is 105.0 for
  1,050,000 bytes against 1,000,000. When \<open>reencode\<close> runs without \<open>force\<close> on a
  ledger that it has written (no row records 0 bytes), the encoder succeeds and the
  percentage is at least 100, then every run that reaches the encoder records the size
  of the scratch output under the key and fails with \<open>ErrorCalled\<close>; and the run does
  reach the encoder when the input needs encoding and the ledger has no row for the key.
\<close>

theorem size_regression_is_recorded:
  "(stat fs f1 = Some n1 \<and> stat fs f2 = Some n2 \<and> st_size n2 \<noteq> 0 \<longrightarrow>
      file_size_percent fs f1 f2 = Inr (percent_of_sizes (st_size n1) (st_size n2)) \<and>
      (\<exists>k::int. file_size_percent fs f1 f2 = Inr (to_double (of_int k / 10)) \<and>
         \<bar>of_int k - 10 * to_double (of_int (100 * int (st_size n1)) / of_int (int (st_size n2)))\<bar>
           \<le> 1 / 2)) \<and>
   (stat fs f1 = Some n1 \<and> stat fs f2 = Some n2 \<and>
    st_size n1 = 1050000 \<and> st_size n2 = 1000000 \<longrightarrow>
      file_size_percent fs f1 f2 = Inr 105) \<and>
   (rows_nonzero w \<and>
    path_isfile (files w) in_file \<and> \<not> path_islink (files w) in_file \<and>
    \<not> path_exists (files w) (final_out_file out_file) \<and>
    probe ev in_file = Inr (codec, acodec, duration) \<and>
    \<not> (codec = ''hevc'' \<and> (acodec = Some ''aac'' \<or> acodec = None)) \<and>
    stat (files w) in_file = Some n \<and> st_size n \<noteq> 0 \<and>
    \<not> in_tree (tmp_dir ev) in_file \<and>
    names (files w) (scratch_path ev out_file) = None \<and>
    ffmpeg_tool ev (encoder_command ev in_file out_file crf preset extra_args codec acodec)
      = Some data \<and>
    100 \<le> percent_of_sizes (length data) (st_size n) \<longrightarrow>
      (rows w (sha1 ev (content n), crf, preset) = None \<longrightarrow>
         encoder_runs (snd (reencode ev w in_file out_file crf preset False extra_args dont_copy))
           \<noteq> encoder_runs w) \<and>
      (encoder_runs (snd (reencode ev w in_file out_file crf preset False extra_args dont_copy))
         \<noteq> encoder_runs w \<longrightarrow>
       fst (reencode ev w in_file out_file crf preset False extra_args dont_copy) = Inl ErrorCalled \<and>
       rows (snd (reencode ev w in_file out_file crf preset False extra_args dont_copy)) =
         (rows w)((sha1 ev (content n), crf, preset) \<mapsto> int (length data)) \<and>
       trace (snd (reencode ev w in_file out_file crf preset False extra_args dont_copy)) =
         trace w @
           [DbCheck (sha1 ev (content n), crf, preset),
            RunFfmpeg (encoder_command ev in_file out_file crf preset extra_args codec acodec),
            DbInsert (sha1 ev (content n), crf, preset) (int (length data))]))"
proof -
  let ?R = "reencode ev w in_file out_file crf preset False extra_args dont_copy"
  let ?key = "(sha1 ev (content n), crf, preset)"
  let ?cmd = "encoder_command ev in_file out_file crf preset extra_args codec acodec"
  let ?pre = "rows_nonzero w \<and>
    path_isfile (files w) in_file \<and> \<not> path_islink (files w) in_file \<and>
    \<not> path_exists (files w) (final_out_file out_file) \<and>
    probe ev in_file = Inr (codec, acodec, duration) \<and>
    \<not> (codec = ''hevc'' \<and> (acodec = Some ''aac'' \<or> acodec = None)) \<and>
    stat (files w) in_file = Some n \<and> st_size n \<noteq> 0 \<and>
    \<not> in_tree (tmp_dir ev) in_file \<and>
    names (files w) (scratch_path ev out_file) = None \<and>
    ffmpeg_tool ev ?cmd = Some data \<and>
    100 \<le> percent_of_sizes (length data) (st_size n)"
  have one: "stat fs f1 = Some n1 \<and> stat fs f2 = Some n2 \<and> st_size n2 \<noteq> 0 \<longrightarrow>
      file_size_percent fs f1 f2 = Inr (percent_of_sizes (st_size n1) (st_size n2)) \<and>
      (\<exists>k::int. file_size_percent fs f1 f2 = Inr (to_double (of_int k / 10)) \<and>
         \<bar>of_int k - 10 * to_double (of_int (100 * int (st_size n1)) / of_int (int (st_size n2)))\<bar>
           \<le> 1 / 2)"
  proof
    assume a: "stat fs f1 = Some n1 \<and> stat fs f2 = Some n2 \<and> st_size n2 \<noteq> 0"
    then have e: "file_size_percent fs f1 f2 = Inr (percent_of_sizes (st_size n1) (st_size n2))"
      by (simp add: file_size_percent_eq)
    from percent_one_decimal [of "st_size n1" "st_size n2"] obtain k :: int
      where "percent_of_sizes (st_size n1) (st_size n2) = to_double (of_int k / 10)"
        and "\<bar>of_int k - 10 * to_double (of_int (100 * int (st_size n1)) / of_int (int (st_size n2)))\<bar>
           \<le> 1 / 2"
      by blast
    with e show "file_size_percent fs f1 f2 = Inr (percent_of_sizes (st_size n1) (st_size n2)) \<and>
      (\<exists>k::int. file_size_percent fs f1 f2 = Inr (to_double (of_int k / 10)) \<and>
         \<bar>of_int k - 10 * to_double (of_int (100 * int (st_size n1)) / of_int (int (st_size n2)))\<bar>
           \<le> 1 / 2)"
      by auto
  qed
  have two: "stat fs f1 = Some n1 \<and> stat fs f2 = Some n2 \<and>
    st_size n1 = 1050000 \<and> st_size n2 = 1000000 \<longrightarrow> file_size_percent fs f1 f2 = Inr 105"
  proof
    assume a: "stat fs f1 = Some n1 \<and> stat fs f2 = Some n2 \<and>
      st_size n1 = 1050000 \<and> st_size n2 = 1000000"
    then have "st_size n2 \<noteq> 0" by simp
    with a have "file_size_percent fs f1 f2 = Inr (percent_of_sizes (st_size n1) (st_size n2))"
      by (simp add: file_size_percent_eq)
    with a show "file_size_percent fs f1 f2 = Inr 105" by (simp only: percent_example)
  qed
  have three: "?pre \<longrightarrow>
      (rows w ?key = None \<longrightarrow> encoder_runs (snd ?R) \<noteq> encoder_runs w) \<and>
      (encoder_runs (snd ?R) \<noteq> encoder_runs w \<longrightarrow>
       fst ?R = Inl ErrorCalled \<and>
       rows (snd ?R) = (rows w)(?key \<mapsto> int (length data)) \<and>
       trace (snd ?R) = trace w @ [DbCheck ?key, RunFfmpeg ?cmd, DbInsert ?key (int (length data))])"
  proof
    assume H: ?pre
    have eq: "?R = (fst ?R, snd ?R)" by simp
    from H have inv: "rows_nonzero w" by blast
    from H have chk: "path_isfile (files w) in_file" "\<not> path_islink (files w) in_file"
      and st: "stat (files w) in_file = Some n" by blast+
    from not_link_file [OF chk] st have reg: "names (files w) in_file = Some (File n)" "\<not> is_dir n"
      by (auto simp: stat_file)
    have miss: "fst ?R = Inl ErrorCalled \<and>
       rows (snd ?R) = (rows w)(?key \<mapsto> int (length data)) \<and>
       trace (snd ?R) = trace w @ [DbCheck ?key, RunFfmpeg ?cmd, DbInsert ?key (int (length data))]"
      if none: "rows w ?key = None"
    proof -
      from none have falsy: "\<not> truthy (rows w ?key)" by (simp add: truthy_def)
      have rr: "fst ?R = (if rows w ?key = None then Inl ErrorCalled else Inl IntegrityError)"
        "rows (snd ?R) = (if rows w ?key = None then (rows w)(?key \<mapsto> int (length data)) else rows w)"
        "trace (snd ?R) = trace w @ [DbCheck ?key, RunFfmpeg ?cmd, DbInsert ?key (int (length data))]"
        using H scratch_path_differs [of ev out_file]
        by (intro reencode_regression [OF _ _ _ _ _ _ _ _ _ _ _ _ refl falsy eq]; blast)+
      with none show ?thesis by simp
    qed
    have hit: "encoder_runs (snd ?R) = encoder_runs w" if some: "rows w ?key = Some v" for v
    proof -
      from inv some have "v \<noteq> 0" by (auto simp: rows_nonzero_def)
      from reencode_hit [OF hash_file_reg [OF reg] some this eq] show ?thesis by blast
    qed
    show "(rows w ?key = None \<longrightarrow> encoder_runs (snd ?R) \<noteq> encoder_runs w) \<and>
      (encoder_runs (snd ?R) \<noteq> encoder_runs w \<longrightarrow>
       fst ?R = Inl ErrorCalled \<and>
       rows (snd ?R) = (rows w)(?key \<mapsto> int (length data)) \<and>
       trace (snd ?R) = trace w @ [DbCheck ?key, RunFfmpeg ?cmd, DbInsert ?key (int (length data))])"
    proof (cases "rows w ?key")
      case None
      from miss [OF None] encoder_runs_regression [of "snd ?R" w ?key ?cmd "int (length data)"]
      show ?thesis by blast
    next
      case (Some v)
      from hit [OF Some] Some show ?thesis by simp
    qed
  qed
  from one two three show ?thesis by blast
qed

theorem size_regression_is_recorded_witness:
  "rows_nonzero example_world \<and>
   path_isfile (files example_world) ''in.mkv'' \<and> \<not> path_islink (files example_world) ''in.mkv'' \<and>
   \<not> path_exists (files example_world) (final_out_file ''out.mp4'') \<and>
   probe example_env ''in.mkv'' = Inr (''h264'', Some ''aac'', 60) \<and>
   stat (files example_world) ''in.mkv'' =
     Some \<lparr>st_ino = 2, is_dir = False, st_dev = 0, content = replicate 1000000 CHR ''x''\<rparr> \<and>
   \<not> in_tree (tmp_dir example_env) ''in.mkv'' \<and>
   names (files example_world) (scratch_path example_env ''out.mp4'') = None \<and>
   ffmpeg_tool example_env
     (encoder_command example_env ''in.mkv'' ''out.mp4'' 23 ''fast'' [] ''h264'' (Some ''aac''))
     = Some (replicate 1050000 CHR ''y'') \<and>
   rows example_world (replicate 20 CHR ''x'', 23, ''fast'') = None \<and>
   percent_of_sizes 1050000 1000000 = 105 \<and>
   encoder_runs (snd (reencode example_env example_world ''in.mkv'' ''out.mp4'' 23 ''fast'' False [] False))
     \<noteq> encoder_runs example_world \<and>
   fst (reencode example_env example_world ''in.mkv'' ''out.mp4'' 23 ''fast'' False [] False)
     = Inl ErrorCalled \<and>
   rows (snd (reencode example_env example_world ''in.mkv'' ''out.mp4'' 23 ''fast'' False [] False))
     (replicate 20 CHR ''x'', 23, ''fast'') = Some 1050000"
proof -
  let ?n = "\<lparr>st_ino = 2, is_dir = False, st_dev = 0, content = replicate 1000000 CHR ''x''\<rparr>"
  let ?R = "reencode example_env example_world ''in.mkv'' ''out.mp4'' 23 ''fast'' False [] False"
  have chk: "path_isfile (files example_world) ''in.mkv''"
    "\<not> path_islink (files example_world) ''in.mkv''"
    "\<not> path_exists (files example_world) (final_out_file ''out.mp4'')"
    by (simp_all add: example_checks)
  have st: "stat (files example_world) ''in.mkv'' = Some ?n" by (simp add: example_stat)
  have sz: "st_size ?n = 1000000" by (simp add: st_size_def)
  have tmp: "names (files example_world) (scratch_path example_env ''out.mp4'') = None"
    by (simp add: example_scratch_free)
  have pct: "100 \<le> percent_of_sizes (length (replicate 1050000 CHR ''y'')) (st_size ?n)"
    by (simp only: sz example_pct)
  have miss: "rows example_world (sha1 example_env (content ?n), 23, ''fast'') = None"
    by (rule example_world_rows)
  note inst = size_regression_is_recorded [where w = example_world and ev = example_env
      and in_file = "''in.mkv''" and out_file = "''out.mp4''" and crf = 23 and preset = "''fast''"
      and extra_args = "[]" and dont_copy = False and codec = "''h264''" and acodec = "Some ''aac''"
      and duration = 60 and n = ?n and data = "replicate 1050000 CHR ''y''"]
  from inst example_world_nonzero chk example_probe st sz example_outside(1) tmp
    example_tool pct miss
  have ran: "encoder_runs (snd ?R) \<noteq> encoder_runs example_world"
    by simp
  from inst example_world_nonzero chk example_probe st sz example_outside(1) tmp
    example_tool pct ran
  have "fst ?R = Inl ErrorCalled \<and>
      rows (snd ?R) = (rows example_world)((sha1 example_env (content ?n), 23, ''fast'') \<mapsto>
         int (length (replicate 1050000 CHR ''y'')))"
    by simp
  then have "fst ?R = Inl ErrorCalled" and "rows (snd ?R) (replicate 20 CHR ''x'', 23, ''fast'') = Some 1050000"
    by (simp_all add: example_sha1)
  with example_world_nonzero chk example_probe st example_outside(1) tmp example_tool
    example_world_rows percent_example ran
  show ?thesis by simp
qed


section \<open>A row that records 0 bytes\<close>

lemma zero_world_run:
  assumes "reencode example_env zero_world ''in.mkv'' ''out.mp4'' 23 ''fast'' False [] False = (r, w')"
  shows "r = Inl IntegrityError"
    and "rows w' = rows zero_world"
    and "trace w' =
           [DbCheck (replicate 20 CHR ''x'', 23, ''fast''),
            RunFfmpeg (encoder_command example_env ''in.mkv'' ''out.mp4'' 23 ''fast'' [] ''h264'' (Some ''aac'')),
            DbInsert (replicate 20 CHR ''x'', 23, ''fast'') 1050000]"
proof -
  have chk: "path_isfile (files zero_world) ''in.mkv''" "\<not> path_islink (files zero_world) ''in.mkv''"
      "\<not> path_exists (files zero_world) (final_out_file ''out.mp4'')"
    by (simp_all add: example_checks)
  have need: "\<not> (''h264'' = ''hevc'' \<and> (Some ''aac'' = Some ''aac'' \<or> Some ''aac'' = None))"
    by simp
  have st: "stat (files zero_world) ''in.mkv'' =
     Some \<lparr>st_ino = 2, is_dir = False, st_dev = 0, content = replicate 1000000 CHR ''x''\<rparr>"
    by (simp add: example_stat)
  let ?n = "\<lparr>st_ino = 2, is_dir = False, st_dev = 0, content = replicate 1000000 CHR ''x''\<rparr>"
  have ne: "st_size ?n \<noteq> 0" by (simp add: example_size)
  have tmp: "names (files zero_world) (scratch_path example_env ''out.mp4'') = None"
    by (simp add: example_scratch_free)
  have pct: "100 \<le> percent_of_sizes (length (replicate 1050000 CHR ''y'')) (st_size ?n)"
    by (simp only: example_size example_pct)
  have key: "(replicate 20 CHR ''x'', 23::int, ''fast'') = (sha1 example_env (content ?n), 23, ''fast'')"
    by (simp add: example_sha1)
  have falsy: "\<not> truthy (rows zero_world (replicate 20 CHR ''x'', 23, ''fast''))"
    by (simp add: zero_world_rows truthy_def)
  note rr = reencode_regression [OF chk example_probe need st ne example_outside(1) tmp
      example_scratch_free(2) example_tool pct key falsy assms]
  from rr(1) show "r = Inl IntegrityError" by (simp add: zero_world_rows)
  from rr(2) show "rows w' = rows zero_world" by (simp add: zero_world_rows)
  from rr(3) show "trace w' =
           [DbCheck (replicate 20 CHR ''x'', 23, ''fast''),
            RunFfmpeg (encoder_command example_env ''in.mkv'' ''out.mp4'' 23 ''fast'' [] ''h264'' (Some ''aac'')),
            DbInsert (replicate 20 CHR ''x'', 23, ''fast'') 1050000]"
    by (simp add: zero_world_def example_world_def)
qed

text \<open>
  A row that records 0 bytes is never written by \<open>reencode\<close>. If one is put into the
  table by other means, \<open>prev_result\<close> is false in
  \<open>if not force and (prev_result := db.check(...))\<close>, and the encoder runs.
\<close>

lemma zero_row_is_not_a_hit:
  "hash_file example_env (files zero_world) ''in.mkv'' = Inr (replicate 20 CHR ''x'') \<and>
   rows zero_world (replicate 20 CHR ''x'', 23, ''fast'') = Some 0 \<and>
   encoder_runs zero_world = [] \<and>
   encoder_runs (snd (reencode example_env zero_world ''in.mkv'' ''out.mp4'' 23 ''fast'' False [] False)) =
     [RunFfmpeg (encoder_command example_env ''in.mkv'' ''out.mp4'' 23 ''fast'' [] ''h264'' (Some ''aac''))]"
proof -
  let ?R = "reencode example_env zero_world ''in.mkv'' ''out.mp4'' 23 ''fast'' False [] False"
  have eq: "?R = (fst ?R, snd ?R)" by simp
  from zero_world_run(3) [OF eq]
  have "encoder_runs (snd ?R) =
     [RunFfmpeg (encoder_command example_env ''in.mkv'' ''out.mp4'' 23 ''fast'' [] ''h264'' (Some ''aac''))]"
    by (simp add: encoder_runs_def)
  moreover have "encoder_runs zero_world = []"
    by (simp add: encoder_runs_def zero_world_def example_world_def)
  moreover have "hash_file example_env (files zero_world) ''in.mkv'' = Inr (replicate 20 CHR ''x'')"
    by (simp add: example_hash)
  ultimately show ?thesis using zero_world_rows by simp
qed

text \<open>
  The percentage of that run is 105.0; the \<open>insert\<close> then raises the primary-key
  violation and the row keeps its 0.
\<close>

lemma zero_row_blocks_the_insert:
  "file_size_percent
     (create_file example_fs ''/tmp/scratch/out.mp4'' (replicate 1050000 CHR ''y''))
     ''/tmp/scratch/out.mp4'' ''in.mkv'' = Inr 105 \<and>
   fst (reencode example_env zero_world ''in.mkv'' ''out.mp4'' 23 ''fast'' False [] False) =
     Inl IntegrityError \<and>
   rows (snd (reencode example_env zero_world ''in.mkv'' ''out.mp4'' 23 ''fast'' False [] False))
     (replicate 20 CHR ''x'', 23, ''fast'') = Some 0"
proof -
  let ?R = "reencode example_env zero_world ''in.mkv'' ''out.mp4'' 23 ''fast'' False [] False"
  let ?fs = "create_file example_fs ''/tmp/scratch/out.mp4'' (replicate 1050000 CHR ''y'')"
  have eq: "?R = (fst ?R, snd ?R)" by simp
  have a: "names ?fs ''in.mkv'' =
    Some (File \<lparr>st_ino = 2, is_dir = False, st_dev = 0, content = replicate 1000000 CHR ''x''\<rparr>)"
    by (simp add: names_create_file example_in_file)
  have b: "names ?fs ''/tmp/scratch/out.mp4'' =
    Some (File \<lparr>st_ino = next_ino example_fs, is_dir = False,
                st_dev = mount example_fs ''/tmp/scratch/out.mp4'',
                content = replicate 1050000 CHR ''y''\<rparr>)"
    by (simp add: names_create_file)
  have "file_size_percent ?fs ''/tmp/scratch/out.mp4'' ''in.mkv'' = Inr (percent_of_sizes 1050000 1000000)"
    using file_size_percent_eq [OF stat_file [OF b] stat_file [OF a]]
    by (simp add: st_size_def)
  then have p: "file_size_percent ?fs ''/tmp/scratch/out.mp4'' ''in.mkv'' = Inr 105"
    by (simp only: percent_example)
  from zero_world_run(1,2) [OF eq] p zero_world_rows show ?thesis by simp
qed


section \<open>Empty inputs\<close>

lemma reencode_encode_empty_input:
  assumes reg: "names (files w) in_file = Some (File n)" and z: "st_size n = 0"
  shows "\<exists>e. fst (reencode_encode ev w in_file out crf preset force extra_args enc aenc) = Inl e"
proof -
  let ?temp = "path_join (tmp_dir ev) (basename out)"
  let ?args = "extra_args @ [''-i'', in_file, ''-c:a'', aenc, ''-c:v'', enc,
                 ''-crf'', str_int crf, ''-preset'', preset, ?temp]"
  obtain r1 w1 where f: "ffmpeg ev w ?args = (r1, w1)" by (cases "ffmpeg ev w ?args")
  show ?thesis
  proof (cases r1)
    case (Inl e)
    with f show ?thesis by (simp add: reencode_encode_def Let_def)
  next
    case (Inr u)
    from ffmpeg_keeps_names [OF f reg] have "stat (files w1) in_file = Some n"
      by (rule stat_file)
    from percent_of_empty_divisor [OF this z] obtain e
      where "file_size_percent (files w1) ?temp in_file = Inl e" by blast
    with f Inr show ?thesis by (simp add: reencode_encode_def Let_def)
  qed
qed

lemma reencode_with_empty_input:
  assumes reg: "names (files w) in_file = Some (File n)" and z: "st_size n = 0"
    and run: "reencode_with ev w in_file out crf preset force extra_args dont_copy enc aenc = (Inr x, w')"
  shows "encoder_runs w' = encoder_runs w"
proof -
  define w1 where "w1 = (init_db w)\<lparr>files := mkdtemp (files w) (tmp_dir ev)\<rparr>"
  have t1: "trace w1 = trace w" by (simp add: w1_def)
  have "\<exists>n1. names (files w1) in_file = Some (File n1) \<and> st_size n1 = 0"
  proof (cases "in_file = tmp_dir ev")
    case True
    then show ?thesis by (simp add: w1_def names_mkdtemp_self st_size_def)
  next
    case False
    with reg z show ?thesis by (simp add: w1_def names_mkdtemp)
  qed
  then obtain n1 where n1: "names (files w1) in_file = Some (File n1)" "st_size n1 = 0"
    by blast
  show ?thesis
  proof (cases force)
    case True
    obtain r2 w2 where e: "reencode_encode ev w1 in_file out crf preset force extra_args enc aenc = (r2, w2)"
      by (cases "reencode_encode ev w1 in_file out crf preset force extra_args enc aenc")
    with run True have "r2 = Inr x"
      by (simp add: reencode_with_def Let_def w1_def [symmetric])
    with e reencode_encode_empty_input [OF n1, of ev out crf preset force extra_args enc aenc]
    show ?thesis by simp
  next
    case False
    obtain rc wc where c: "check ev w1 in_file crf preset = (rc, wc)"
      by (cases "check ev w1 in_file crf preset")
    note cf = check_frame [OF c]
    have erc: "encoder_runs wc = encoder_runs w"
      using cf(3) t1 by (simp add: encoder_runs_def)
    have nc: "names (files wc) in_file = Some (File n1)" using n1(1) cf(2) by simp
    define body where "body = (case rc of
                       Inl e \<Rightarrow> (Inl e, wc)
                     | Inr prev_result \<Rightarrow>
                         (if truthy prev_result then
                            (if dont_copy then (Inr None, wc)
                             else copy_and_return wc in_file out)
                          else reencode_encode ev wc in_file out crf preset False extra_args
                                 enc aenc))"
    obtain r2 w2 where b: "body = (r2, w2)" by (cases body)
    from run False
    have "reencode_with ev w in_file out crf preset False extra_args dont_copy enc aenc = (Inr x, w')"
      by simp
    then have "(Inr x, w') = (r2, w2\<lparr>files := rmtree (files w2) (tmp_dir ev)\<rparr>)"
      unfolding reencode_with_unfold
      by (simp add: Let_def w1_def [symmetric] c body_def [symmetric] b)
    then have r: "r2 = Inr x" and tw: "trace w' = trace w2" by simp_all
    have "encoder_runs w2 = encoder_runs wc"
    proof (cases rc)
      case (Inl e)
      with b r show ?thesis by (simp add: body_def)
    next
      case (Inr prev_result)
      show ?thesis
      proof (cases "truthy prev_result")
        case t: True
        show ?thesis
        proof (cases dont_copy)
          case True
          with b Inr t show ?thesis by (simp add: body_def)
        next
          case dc: False
          with b Inr t have "copy_and_return wc in_file out = (r2, w2)" by (simp add: body_def)
          from copy_and_return_frame(2) [OF this] show ?thesis
            by (rule encoder_runs_eq_of_trace)
        qed
      next
        case f: False
        with b Inr have "reencode_encode ev wc in_file out crf preset False extra_args enc aenc = (r2, w2)"
          by (simp add: body_def)
        with r reencode_encode_empty_input [OF nc n1(2), of ev out crf preset False extra_args enc aenc]
        show ?thesis by simp
      qed
    qed
    with erc tw show ?thesis by (simp add: encoder_runs_def)
  qed
qed

lemma reencode_empty_input:
  assumes st: "stat (files w) in_file = Some n" and z: "st_size n = 0"
    and run: "reencode ev w in_file out_file crf preset force extra_args dont_copy = (Inr x, w')"
  shows "encoder_runs w' = encoder_runs w"
  using run
proof (cases rule: reencode_cases)
  case (failed e)
  then show ?thesis by simp
next
  case (no_action c a d)
  then show ?thesis by simp
next
  case (duplicate c a d)
  from copy_and_return_frame(2) [OF duplicate(9)] show ?thesis
    by (rule encoder_runs_eq_of_trace)
next
  case (encode c a d)
  from not_link_file [OF encode(1,2)] st have reg: "names (files w) in_file = Some (File n)"
    by (auto simp: stat_file)
  from reencode_with_empty_input [OF reg z encode(6)] show ?thesis .
qed

text \<open>
  C10. \<open>file_size_percent\<close> divides by the size of its second file without a guard:
  when that file has 0 bytes no value is returned, and with the first file present the
  error is the division by zero. So the size check after the encoding is defined only
  for a non-empty input: a run of \<open>reencode\<close> on an empty input that returns a value
  has not run the encoder.
\<close>

theorem file_size_percent_zero_division:
  "(stat fs f2 = Some n2 \<and> st_size n2 = 0 \<longrightarrow>
      (\<exists>e. file_size_percent fs f1 f2 = Inl e) \<and>
      (stat fs f1 \<noteq> None \<longrightarrow> file_size_percent fs f1 f2 = Inl ZeroDivisionError)) \<and>
   (stat (files w) in_file = Some n \<and> st_size n = 0 \<and>
    reencode ev w in_file out_file crf preset force extra_args dont_copy = (Inr x, w') \<longrightarrow>
      encoder_runs w' = encoder_runs w)"
proof (intro conjI impI)
  assume "stat fs f2 = Some n2 \<and> st_size n2 = 0"
  then show "\<exists>e. file_size_percent fs f1 f2 = Inl e"
    by (auto simp: file_size_percent_def true_div_def split: option.splits)
next
  assume "stat fs f2 = Some n2 \<and> st_size n2 = 0" and "stat fs f1 \<noteq> None"
  then show "file_size_percent fs f1 f2 = Inl ZeroDivisionError"
    by (auto simp: file_size_percent_def true_div_def split: option.splits)
next
  assume "stat (files w) in_file = Some n \<and> st_size n = 0 \<and>
    reencode ev w in_file out_file crf preset force extra_args dont_copy = (Inr x, w')"
  then show "encoder_runs w' = encoder_runs w"
    using reencode_empty_input by blast
qed

lemma example_empty_no_action:
  "reencode hevc_env example_world ''empty.mkv'' ''out.mp4'' 23 ''fast'' False [] True =
     (Inr None, example_world)"
proof -
  have "path_isfile example_fs ''empty.mkv''" "\<not> path_islink example_fs ''empty.mkv''"
    by (simp_all add: path_isfile_def path_islink_def stat_file [OF example_empty_file]
          example_empty_file)
  then show ?thesis
    by (simp add: reencode_def Let_def example_checks [unfolded final_out_file_def]
          isvideo_def hevc_probe)
qed

theorem file_size_percent_zero_division_witness:
  "stat example_fs ''empty.mkv'' = Some \<lparr>st_ino = 3, is_dir = False, st_dev = 0, content = []\<rparr> \<and>
   st_size \<lparr>st_ino = 3, is_dir = False, st_dev = 0, content = []\<rparr> = 0 \<and>
   stat example_fs ''in.mkv'' \<noteq> None \<and>
   file_size_percent example_fs ''in.mkv'' ''empty.mkv'' = Inl ZeroDivisionError \<and>
   reencode hevc_env example_world ''empty.mkv'' ''out.mp4'' 23 ''fast'' False [] True =
     (Inr None, example_world) \<and>
   encoder_runs example_world = encoder_runs example_world"
proof -
  let ?n = "\<lparr>st_ino = 3, is_dir = False, st_dev = 0, content = []\<rparr>"
  have s2: "stat example_fs ''empty.mkv'' = Some ?n"
    by (rule stat_file [OF example_empty_file])
  have z: "st_size ?n = 0"
    by (simp add: st_size_def)
  have s1: "stat example_fs ''in.mkv'' \<noteq> None"
    by (simp add: example_stat)
  from file_size_percent_zero_division [where fs = example_fs and ?f1.0 = "''in.mkv''"
      and ?f2.0 = "''empty.mkv''" and ?n2.0 = ?n and w = example_world and in_file = "''empty.mkv''"
      and n = ?n and ev = hevc_env and out_file = "''out.mp4''" and crf = 23 and preset = "''fast''"
      and force = False and extra_args = "[]" and dont_copy = True and x = None
      and w' = example_world]
    s1 s2 z example_empty_no_action
  show ?thesis by simp
qed


section \<open>Backups and the skip policy\<close>

lemma endswith_drop: "endswith s (drop m s)"
  by (cases "m \<le> length s") (simp_all add: endswith_def)

lemma backup_is_recognised: "is_backup (backup_target f) \<and> skip_file (backup_target f)"
  by (simp add: skip_file_def is_backup_def backup_target_def startswith_def)

lemma marked_is_skipped: "is_backup f \<Longrightarrow> skip_file f"
  by (simp add: skip_file_def)

lemma skip_by_extension_is_skipped:
  assumes "skip_by_extension f"
  shows "skip_file f"
proof (cases "is_backup f")
  case True
  then show ?thesis by (rule marked_is_skipped)
next
  case False
  with assms obtain e where e: "extension (lower f) = Some e" "e \<in> set SKIP_EXTS"
    by (auto simp: skip_by_extension_def split: option.splits)
  from e(1) have "e = drop (rfind1 (basename (lower f)) CHR ''.'' + rfind1 (lower f) CHR ''/'') (lower f)"
    by (auto simp: extension_def Let_def basename_def split: if_splits)
  then have "endswith (lower f) e" by (simp add: endswith_drop)
  with e(2) show ?thesis by (auto simp: skip_file_def Let_def list_ex_iff)
qed

lemma backup_of_plain_name:
  assumes "CHR ''/'' \<notin> set f"
  shows "dirname (backup_target f) = dirname f"
    and "basename (backup_target f) = ''REENC_BACKUP-'' @ basename f"
proof -
  have a: "rfind1 f CHR ''/'' = 0" using assms by (simp add: rfind1_zero_iff)
  have "CHR ''/'' \<notin> set (backup_target f)" using assms by (simp add: backup_target_def)
  then have b: "rfind1 (backup_target f) CHR ''/'' = 0" by (simp add: rfind1_zero_iff)
  from a b show "dirname (backup_target f) = dirname f"
    by (simp add: dirname_def)
  from a b show "basename (backup_target f) = ''REENC_BACKUP-'' @ basename f"
    by (simp add: basename_def backup_target_def)
qed

text \<open>
  C8. \<open>backup\<close> puts the marker in front of the whole path, not of the file name: for
  \<open>videos/a.mkv\<close> the destination is \<open>REENC_BACKUP-videos/a.mkv\<close>, in another
  directory than the original.
\<close>

theorem backup_leaves_the_directory:
  "backup_target ''videos/a.mkv'' = ''REENC_BACKUP-videos/a.mkv'' \<and>
   dirname ''videos/a.mkv'' = ''videos'' \<and>
   dirname (backup_target ''videos/a.mkv'') = ''REENC_BACKUP-videos'' \<and>
   basename (backup_target ''videos/a.mkv'') = ''a.mkv''"
  by code_simp

text \<open>
  C9. \<open>skip_file\<close> tests whether the lowered path ends with a denylist string, without
  the dot: \<open>tape.hdv\<close> carries no marker and its extension \<open>hdv\<close> is not on the
  denylist, yet it is skipped because it ends with \<open>dv\<close>.
\<close>

theorem skip_file_matches_bare_suffix:
  "skip_file ''tape.hdv'' \<and> \<not> is_backup ''tape.hdv'' \<and>
   extension (lower ''tape.hdv'') = Some ''hdv'' \<and> ''hdv'' \<notin> set SKIP_EXTS \<and>
   \<not> skip_by_extension ''tape.hdv''"
  by code_simp

end
